theory Spec2Isabelle
  imports Main
begin

text \<open>
  A shallow embedding of the schema-driven RPC dispatchers: the schema model and the
  transformer (core), the client dispatcher \<open>createClient\<close> with its callables, and the
  server dispatcher \<open>createServer\<close> with \<open>getInput\<close> and its request handler.

  The collaborators are parameters: the name normaliser, the JSON functions,
  \<open>encodeURIComponent\<close> and \<open>decodeURIComponent\<close>, the validators, the transformer, the
  metadata resolver, the handlers, the fetch implementations and the interceptor. They are
  total functions: a collaborator that throws is outside the model. What the dispatchers
  themselves throw is a value of the model. Every call of a collaborator that a statement
  speaks about is recorded in a list of events.
\<close>

section \<open>JavaScript values\<close>

text \<open>
  The values that flow through the two dispatchers. Plain data (inputs, outputs, header
  objects, JSON response bodies) is an immutable tree. \<open>JFun\<close> is a function value known
  by its identity (a fetch implementation). \<open>JRef\<close> is a reference to a mutable object
  owned by the caller and kept in the store \<open>heap\<close>: the client deletes a property of the
  per-call init object, so that object must be shared, not copied. Numbers are the
  integers among the JavaScript numbers.
\<close>

datatype jsval =
    JUndefined
  | JNull
  | JBool bool
  | JNum int
  | JStr string
  | JArr "jsval list"
  | JObj "(string \<times> jsval) list"
  | JFun nat
  | JRef nat

type_synonym props = "(string \<times> jsval) list"

type_synonym heap = "props list"

text \<open>\<open>!v\<close> is \<open>\<not> truthy v\<close>: undefined, null, false, 0 and the empty string are falsy.\<close>

fun truthy :: "jsval \<Rightarrow> bool" where
  "truthy JUndefined = False"
| "truthy JNull = False"
| "truthy (JBool b) = b"
| "truthy (JNum n) = (n \<noteq> 0)"
| "truthy (JStr s) = (s \<noteq> [])"
| "truthy (JArr xs) = True"
| "truthy (JObj ps) = True"
| "truthy (JFun f) = True"
| "truthy (JRef r) = True"

text \<open>\<open>v == null\<close>: the loose comparison holds for null and undefined.\<close>

fun nullish :: "jsval \<Rightarrow> bool" where
  "nullish JUndefined = True"
| "nullish JNull = True"
| "nullish v = False"

text \<open>\<open>a ?? b\<close>\<close>

definition nullish_or :: "jsval \<Rightarrow> jsval \<Rightarrow> jsval" where
  "nullish_or a b = (if nullish a then b else a)"

text \<open>\<open>obj[k] = v\<close> on an object literal: an existing key keeps its place, a new key is
  appended.\<close>

fun set_prop :: "string \<Rightarrow> 'v \<Rightarrow> (string \<times> 'v) list \<Rightarrow> (string \<times> 'v) list" where
  "set_prop k v [] = [(k, v)]"
| "set_prop k v ((k', v') # ps) =
     (if k' = k then (k, v) # ps else (k', v') # set_prop k v ps)"

text \<open>\<open>{...a, ...b}\<close> and \<open>Object.assign(a, b)\<close>: the properties of \<open>b\<close> are set one by one.\<close>

fun assign_props :: "(string \<times> 'v) list \<Rightarrow> (string \<times> 'v) list \<Rightarrow> (string \<times> 'v) list" where
  "assign_props a [] = a"
| "assign_props a ((k, v) # b) = assign_props (set_prop k v a) b"

text \<open>\<open>delete obj[k]\<close>\<close>

definition delete_prop :: "string \<Rightarrow> (string \<times> 'v) list \<Rightarrow> (string \<times> 'v) list" where
  "delete_prop k ps = filter (\<lambda>p. fst p \<noteq> k) ps"

text \<open>Decimal digits of a number, as a template literal prints it.\<close>

definition digit_char :: "nat \<Rightarrow> char" where
  "digit_char n = ''0123456789'' ! n"

function show_nat :: "nat \<Rightarrow> string" where
  "show_nat n = (if n < 10 then [digit_char n] else show_nat (n div 10) @ [digit_char (n mod 10)])"
  by pat_completeness auto
termination
  by (relation "measure id") auto

declare show_nat.simps [simp del]

text \<open>\<open>Array.prototype.join\<close>\<close>

fun join :: "string \<Rightarrow> string list \<Rightarrow> string" where
  "join sep [] = []"
| "join sep [x] = x"
| "join sep (x # y # ys) = x @ sep @ join sep (y # ys)"

text \<open>\<open>String.prototype.toUpperCase\<close> on the ASCII letters.\<close>

definition upper_char :: "char \<Rightarrow> char" where
  "upper_char c =
     (case map_of (zip ''abcdefghijklmnopqrstuvwxyz'' ''ABCDEFGHIJKLMNOPQRSTUVWXYZ'') c of
        Some u \<Rightarrow> u
      | None \<Rightarrow> c)"

definition toUpperCase :: "string \<Rightarrow> string" where
  "toUpperCase s = map upper_char s"

text \<open>The own enumerable properties of a value, as a spread \<open>{...v}\<close> reads them: an
  object's properties (through the store for a reference), the indexed elements of an
  array or a string, and nothing for undefined, null and the other primitives.\<close>

fun index_props :: "nat \<Rightarrow> jsval list \<Rightarrow> props" where
  "index_props i [] = []"
| "index_props i (x # xs) = (show_nat i, x) # index_props (Suc i) xs"

fun own_props :: "heap \<Rightarrow> jsval \<Rightarrow> props" where
  "own_props h (JObj ps) = ps"
| "own_props h (JRef r) = (if r < length h then h ! r else [])"
| "own_props h (JArr xs) = index_props 0 xs"
| "own_props h (JStr s) = index_props 0 (map (\<lambda>c. JStr [c]) s)"
| "own_props h v = []"

text \<open>\<open>v?.k\<close>: undefined on undefined and null, the property otherwise (undefined when the
  object has none of that name).\<close>

definition get_prop :: "heap \<Rightarrow> jsval \<Rightarrow> string \<Rightarrow> jsval" where
  "get_prop h v k = (case map_of (own_props h v) k of Some x \<Rightarrow> x | None \<Rightarrow> JUndefined)"

section \<open>Schema model (core)\<close>

text \<open>The validator capability: \<open>safeParse\<close> yields the canonical value or the issues.\<close>

record issue =
  issue_code :: string
  issue_path :: "jsval list"
  issue_message :: string

datatype parse_result = ParseSuccess jsval | ParseFailure "issue list"

text \<open>\<open>z.ZodType | null | undefined\<close>\<close>

datatype zod_decl = ZodType "jsval \<Rightarrow> parse_result" | Null | Undefined

record schema_endpoint =
  ep_input :: zod_decl
  ep_output :: zod_decl
  isMetadataUsed :: "bool option"
  isMetadataRequired :: "bool option"
  cacheControl :: "string option"
  autoScopeInvalidationDepth :: "nat option"
  invalidate :: "string list option"

text \<open>A schema node: an Endpoint, or a nested mapping from keys to nodes (a Route is a
  mapping whose keys are verbs). \<open>Object.entries\<close> lists the entries in order.\<close>

datatype schema_entry = Endpoint schema_endpoint | Nested "(string \<times> schema_entry) list"

type_synonym schema = "(string \<times> schema_entry) list"

definition methods :: "string list" where
  "methods = [''get'', ''post'', ''put'', ''patch'', ''delete'']"

record transformer =
  serialize :: "jsval \<Rightarrow> string"
  deserialize :: "jsval \<Rightarrow> jsval"

text \<open>\<open>isEndpoint\<close>, the same function in the client and in the server file. The entry may
  be undefined (a key the schema does not have).\<close>

fun isEndpoint :: "schema_entry option \<Rightarrow> bool" where
  "isEndpoint (Some (Endpoint e)) = True"
| "isEndpoint (Some (Nested s)) = False"
| "isEndpoint None = False"

section \<open>Client dispatcher: the traversal\<close>

text \<open>A callable of the fetcher tree is the closure over \<open>path\<close>, \<open>method\<close> and
  \<open>schemaEntry\<close>.\<close>

datatype fetcher = Callable string string schema_endpoint | Fetchers "(string \<times> fetcher) list"

text \<open>\<open>fillClientFetcher\<close>. The name normaliser \<open>kebabTransformer.transform\<close> comes from a
  package outside the repository and is the parameter \<open>kebab\<close>.\<close>

fun fillClientFetcher ::
  "(string \<Rightarrow> string) \<Rightarrow> schema \<Rightarrow> string list \<Rightarrow> (string \<times> fetcher) list \<Rightarrow> (string \<times> fetcher) list"
where
  "fillClientFetcher kebab [] names result = result"
| "fillClientFetcher kebab ((name, Endpoint schemaEntry) # rest) names result =
     fillClientFetcher kebab rest names
       (assign_props result [(name, Callable (join ''/'' ('''' # names)) name schemaEntry)])"
| "fillClientFetcher kebab ((name, Nested schemaEntry) # rest) names result =
     fillClientFetcher kebab rest names
       (set_prop name
          (Fetchers (fillClientFetcher kebab schemaEntry (names @ [kebab name]) [])) result)"

section \<open>Server dispatcher: the traversal\<close>

text \<open>What the dispatcher reads of an Express request: the method (upper case), the
  reserved query parameter \<open>req.query.__body\<close> (read as a string, as the source's cast
  says) and \<open>req.body\<close>, whatever the body reader left there.\<close>

record request =
  req_method :: string
  query_body :: "string option"
  req_body :: jsval

datatype res_body = JsonBody jsval | TextBody string | ZodErrorBody "issue list"

text \<open>The Express response object: \<open>res.status\<close>, \<open>res.setHeader\<close>, \<open>res.json\<close>,
  \<open>res.send\<close>, \<open>res.headersSent\<close> and \<open>res.writableEnded\<close>.\<close>

record res_state =
  statusCode :: nat
  res_headers :: "(string \<times> string) list"
  headersSent :: bool
  writableEnded :: bool
  res_sent :: "res_body option"

definition res_status :: "nat \<Rightarrow> res_state \<Rightarrow> res_state" where
  "res_status n res = res\<lparr>statusCode := n\<rparr>"

definition res_setHeader :: "string \<Rightarrow> string \<Rightarrow> res_state \<Rightarrow> res_state" where
  "res_setHeader k v res = res\<lparr>res_headers := set_prop k v (res_headers res)\<rparr>"

definition res_end :: "res_body \<Rightarrow> res_state \<Rightarrow> res_state" where
  "res_end b res = res\<lparr>headersSent := True, writableEnded := True, res_sent := Some b\<rparr>"

definition res_json :: "jsval \<Rightarrow> res_state \<Rightarrow> res_state" where
  "res_json v res = res_end (JsonBody v) res"

definition res_send :: "string \<Rightarrow> res_state \<Rightarrow> res_state" where
  "res_send s res = res_end (TextBody s) res"

text \<open>A handler \<open>(input, metadata, {req, res}) \<Rightarrow> output\<close>; it may write to \<open>res\<close>.\<close>

type_synonym handler = "jsval \<Rightarrow> jsval \<Rightarrow> request \<Rightarrow> res_state \<Rightarrow> jsval \<times> res_state"

text \<open>A node of the (partial) handler tree: a function, a nested object, or undefined
  (an optional key left undefined). A function has no enumerable property.\<close>

datatype handler_entry =
    HandlerFn handler
  | HandlerTree "(string \<times> handler_entry) list"
  | HandlerUndefined

text \<open>What the code throws: a \<open>TypeError\<close> of the runtime, a plain \<open>Error\<close> with its
  message, or an \<open>HttpError\<close> with its message, method, url, status and description.\<close>

datatype js_error =
    TypeError
  | Error string
  | HttpError string string string nat string

text \<open>What \<open>router[method](path, ...)\<close> registers: the raw-text body reader, or the request
  handler closed over \<open>schemaEntry\<close>, \<open>method\<close> (for \<open>okStatus\<close>) and \<open>handler\<close>.\<close>

datatype middleware = TextMiddleware | EndpointHandler schema_endpoint string handler_entry

type_synonym registration = "string \<times> string \<times> middleware"

type_synonym router = "registration list"

text \<open>The traversal returns normally with the router, or throws, leaving the router as
  it was at the throw.\<close>

datatype fill_result = Filled router | Threw js_error router

text \<open>\<open>schema[name] as Schema\<close>, the node the recursive call walks.\<close>

fun sub_schema :: "schema_entry option \<Rightarrow> schema option" where
  "sub_schema (Some (Nested s)) = Some s"
| "sub_schema (Some (Endpoint e)) = None"
| "sub_schema None = None"

text \<open>\<open>fillRouter\<close>: \<open>Object.entries(handlers)\<close> throws on undefined and is empty for a
  function; \<open>schema[name]\<close> throws when \<open>schema\<close> is undefined.\<close>

fun fillRouter ::
  "(string \<Rightarrow> string) \<Rightarrow> schema option \<Rightarrow> handler_entry \<Rightarrow> string list \<Rightarrow> router \<Rightarrow> fill_result"
and fillRouter_entries ::
  "(string \<Rightarrow> string) \<Rightarrow> schema option \<Rightarrow> (string \<times> handler_entry) list \<Rightarrow> string list
     \<Rightarrow> router \<Rightarrow> fill_result"
where
  "fillRouter kebab schema (HandlerTree entries) names router =
     fillRouter_entries kebab schema entries names router"
| "fillRouter kebab schema (HandlerFn f) names router = Filled router"
| "fillRouter kebab schema HandlerUndefined names router = Threw TypeError router"
| "fillRouter_entries kebab schema [] names router = Filled router"
| "fillRouter_entries kebab schema ((name, handler) # rest) names router =
     (case schema of
        None \<Rightarrow> Threw TypeError router
      | Some s \<Rightarrow>
          (case map_of s name of
             Some (Endpoint schemaEntry) \<Rightarrow>
               (let path = join ''/'' ('''' # names);
                    router1 = (if name \<noteq> ''get''
                               then router @ [(name, path, TextMiddleware)] else router)
                in fillRouter_entries kebab schema rest names
                     (router1 @ [(name, path, EndpointHandler schemaEntry name handler)]))
           | schemaEntry \<Rightarrow>
               (case fillRouter kebab (sub_schema schemaEntry) handler
                       (names @ [kebab name]) router of
                  Filled router' \<Rightarrow> fillRouter_entries kebab schema rest names router'
                | Threw e router' \<Rightarrow> Threw e router')))"

section \<open>Server dispatcher: one request\<close>

text \<open>The calls a request makes to its collaborators, in order: the transformer, the
  validators, the metadata resolver and the handler.\<close>

datatype server_event =
    GetMetadataCall bool
  | DeserializeCall jsval
  | InputSafeParse jsval
  | HandlerCall jsval jsval
  | OutputSafeParse jsval
  | SerializeCall jsval

text \<open>\<open>InputParseResult\<close>\<close>

datatype input_parse_result = InputSuccess jsval | InputFailure nat jsval

text \<open>\<open>if (inputSchema)\<close>: only a validator is truthy.\<close>

fun decl_truthy :: "zod_decl \<Rightarrow> bool" where
  "decl_truthy (ZodType v) = True"
| "decl_truthy Null = False"
| "decl_truthy Undefined = False"

definition issue_entry :: "issue \<Rightarrow> jsval" where
  "issue_entry i = JObj [(''path'', JArr (issue_path i)), (''message'', JStr (issue_message i))]"

text \<open>\<open>getInput\<close> from the deserialisation on (the source's lines after the two
  absence checks).\<close>

definition getInput_parse ::
  "jsval \<Rightarrow> zod_decl \<Rightarrow> transformer \<Rightarrow> input_parse_result \<times> server_event list"
where
  "getInput_parse body inputSchema transformer =
     (let (rawInput, ev) =
            (if truthy body then (deserialize transformer body, [DeserializeCall body])
             else (JNull, []))
      in case inputSchema of
           ZodType safeParse \<Rightarrow>
             (case safeParse rawInput of
                ParseSuccess data \<Rightarrow> (InputSuccess data, ev @ [InputSafeParse rawInput])
              | ParseFailure issues \<Rightarrow>
                  (InputFailure 400 (JArr (map issue_entry issues)),
                   ev @ [InputSafeParse rawInput]))
         | _ \<Rightarrow> (InputSuccess rawInput, ev))"

text \<open>\<open>getInput\<close>. \<open>decodeURIComponent\<close> is the platform's function, a parameter.\<close>

definition getInput ::
  "(string \<Rightarrow> string) \<Rightarrow> request \<Rightarrow> zod_decl \<Rightarrow> transformer
     \<Rightarrow> input_parse_result \<times> server_event list"
where
  "getInput decodeURIComponent req inputSchema transformer =
     (if req_method req = ''GET'' then
        (let body = (case query_body req of
                       Some q \<Rightarrow> if q \<noteq> [] then JStr (decodeURIComponent q) else JNull
                     | None \<Rightarrow> JNull)
         in if decl_truthy inputSchema \<and> \<not> truthy body
            then (InputFailure 400 (JObj [(''error'', JStr ''No __body provided'')]), [])
            else getInput_parse body inputSchema transformer)
      else
        (let body = req_body req
         in if decl_truthy inputSchema \<and> \<not> truthy body
            then (InputFailure 400 (JObj [(''error'', JStr ''No body provided'')]), [])
            else getInput_parse body inputSchema transformer))"

text \<open>The request either ends with the response written so far, or the handler closure
  throws (its promise rejects).\<close>

datatype request_outcome = Responded res_state | Crashed js_error res_state

text \<open>The end of the request handler: cache header, success status, body.\<close>

definition finalize :: "schema_endpoint \<Rightarrow> string \<Rightarrow> string option \<Rightarrow> res_state \<Rightarrow> res_state" where
  "finalize schemaEntry method out res =
     (let okStatus = (if method = ''post'' then 201 else 200);
          res1 = (case cacheControl schemaEntry of
                    Some c \<Rightarrow> if c \<noteq> [] \<and> \<not> headersSent res
                              then res_setHeader ''Cache-Control'' c res else res
                  | None \<Rightarrow> res);
          res2 = (if \<not> headersSent res1 then res_status okStatus res1 else res1)
      in if \<not> writableEnded res2
         then (case out of Some s \<Rightarrow> res_send s res2 | None \<Rightarrow> res_send [] res2)
         else res2)"

text \<open>Output validation and serialisation, after the handler has returned.\<close>

definition send_output ::
  "transformer \<Rightarrow> schema_endpoint \<Rightarrow> string \<Rightarrow> jsval \<Rightarrow> res_state
     \<Rightarrow> request_outcome \<times> server_event list"
where
  "send_output transformer schemaEntry method rawOutput res =
     (case ep_output schemaEntry of
        Null \<Rightarrow> (Responded (finalize schemaEntry method None res), [])
      | ZodType safeParse \<Rightarrow>
          (case safeParse rawOutput of
             ParseFailure issues \<Rightarrow>
               (Responded (res_end (ZodErrorBody issues) (res_status 500 res)),
                [OutputSafeParse rawOutput])
           | ParseSuccess parsedOutput \<Rightarrow>
               (Responded
                  (finalize schemaEntry method (Some (serialize transformer parsedOutput)) res),
                [OutputSafeParse rawOutput, SerializeCall parsedOutput]))
      | Undefined \<Rightarrow>
          (Responded (finalize schemaEntry method (Some (serialize transformer rawOutput)) res),
           [SerializeCall rawOutput]))"

text \<open>\<open>await handler(inputParseResult.data, metadata ?? null, {req, res})\<close>; calling what
  is not a function throws.\<close>

definition invoke_handler ::
  "transformer \<Rightarrow> schema_endpoint \<Rightarrow> string \<Rightarrow> handler_entry \<Rightarrow> request \<Rightarrow> res_state
     \<Rightarrow> jsval \<Rightarrow> jsval \<Rightarrow> request_outcome \<times> server_event list"
where
  "invoke_handler transformer schemaEntry method handler req res data metadata =
     (case handler of
        HandlerFn f \<Rightarrow>
          (let (rawOutput, res1) = f data (nullish_or metadata JNull) req res;
               (outcome, ev) = send_output transformer schemaEntry method rawOutput res1
           in (outcome, HandlerCall data (nullish_or metadata JNull) # ev))
      | _ \<Rightarrow> (Crashed TypeError res, []))"

text \<open>Metadata resolution: \<open>isMetadataUsed\<close> and \<open>isMetadataRequired\<close> default to true;
  \<open>metadata\<close> stays undefined when metadata is not used, and is
  \<open>getMetadata?.(req, isMetadataRequired) ?? null\<close> otherwise.\<close>

definition metadata_used :: "schema_endpoint \<Rightarrow> bool" where
  "metadata_used schemaEntry = (case isMetadataUsed schemaEntry of Some b \<Rightarrow> b | None \<Rightarrow> True)"

definition metadata_required :: "schema_endpoint \<Rightarrow> bool" where
  "metadata_required schemaEntry =
     (case isMetadataRequired schemaEntry of Some b \<Rightarrow> b | None \<Rightarrow> True)"

definition resolve_metadata ::
  "(request \<Rightarrow> bool \<Rightarrow> jsval) option \<Rightarrow> schema_endpoint \<Rightarrow> request \<Rightarrow> jsval \<times> server_event list"
where
  "resolve_metadata getMetadata schemaEntry req =
     (if metadata_used schemaEntry
      then (case getMetadata of
              Some g \<Rightarrow> (nullish_or (g req (metadata_required schemaEntry)) JNull,
                         [GetMetadataCall (metadata_required schemaEntry)])
            | None \<Rightarrow> (JNull, []))
      else (JUndefined, []))"

text \<open>\<open>isMetadataUsed && isMetadataRequired && !metadata\<close>: the request ends with the
  metadata error.\<close>

definition metadata_missing ::
  "(request \<Rightarrow> bool \<Rightarrow> jsval) option \<Rightarrow> schema_endpoint \<Rightarrow> request \<Rightarrow> bool"
where
  "metadata_missing getMetadata schemaEntry req =
     (metadata_used schemaEntry \<and> metadata_required schemaEntry \<and>
      \<not> truthy (fst (resolve_metadata getMetadata schemaEntry req)))"

text \<open>The request handler that \<open>fillRouter\<close> registers for an Endpoint.\<close>

definition handle_request ::
  "transformer \<Rightarrow> (request \<Rightarrow> bool \<Rightarrow> jsval) option \<Rightarrow> (string \<Rightarrow> string)
     \<Rightarrow> schema_endpoint \<Rightarrow> string \<Rightarrow> handler_entry \<Rightarrow> request \<Rightarrow> res_state
     \<Rightarrow> request_outcome \<times> server_event list"
where
  "handle_request transformer getMetadata decodeURIComponent schemaEntry method handler req res =
     (let (metadata, ev0) = resolve_metadata getMetadata schemaEntry req
      in if metadata_missing getMetadata schemaEntry req
         then (Responded
                 (res_json (JObj [(''error'', JStr ''Metadata cannot be parsed.'')])
                    (res_status 400 res)), ev0)
         else
           (case getInput decodeURIComponent req (ep_input schemaEntry) transformer of
              (InputFailure status response, ev1) \<Rightarrow>
                (Responded (res_json response (res_status status res)), ev0 @ ev1)
            | (InputSuccess data, ev1) \<Rightarrow>
                (let (outcome, ev2) =
                       invoke_handler transformer schemaEntry method handler req res data metadata
                 in (outcome, ev0 @ ev1 @ ev2))))"

text \<open>The default transformer is the platform's JSON pair, given as parameters.\<close>

definition jsonTransformer :: "(jsval \<Rightarrow> string) \<Rightarrow> (jsval \<Rightarrow> jsval) \<Rightarrow> transformer" where
  "jsonTransformer JSON_stringify JSON_parse =
     \<lparr>serialize = JSON_stringify, deserialize = JSON_parse\<rparr>"

text \<open>\<open>createServer\<close> fills a new router; \<open>register\<close> fills the same router again.\<close>

definition createServer ::
  "(string \<Rightarrow> string) \<Rightarrow> schema \<Rightarrow> handler_entry \<Rightarrow> fill_result" where
  "createServer kebab schema handlers = fillRouter kebab (Some schema) handlers [] []"

definition register ::
  "(string \<Rightarrow> string) \<Rightarrow> schema \<Rightarrow> router \<Rightarrow> handler_entry \<Rightarrow> fill_result" where
  "register kebab schema router handlers = fillRouter kebab (Some schema) handlers [] router"

section \<open>Client dispatcher: one call\<close>

text \<open>What the client reads of a fetch \<open>Response\<close>.\<close>

record response =
  resp_ok :: bool
  resp_status :: nat
  resp_statusText :: string
  resp_text :: string

text \<open>The calls a client call makes to its collaborators: the fetch capability (the
  function, the URL, the request init) and the interceptor (method, path, response, ctx).\<close>

datatype client_event =
    FetchCall nat string props
  | InterceptorCall nat string string response jsval

datatype call_outcome = Resolved jsval | Rejected js_error

text \<open>The constructor of \<open>HttpError\<close>.\<close>

definition new_HttpError :: "string \<Rightarrow> string \<Rightarrow> nat \<Rightarrow> string \<Rightarrow> js_error" where
  "new_HttpError method url status description =
     HttpError
       (''Fetch at '' @ toUpperCase method @ '' '' @ url @ '' failed, status '' @ show_nat status
          @ '', description: '' @ [CHR 0x27] @ description @ [CHR 0x27])
       method url status description"

text \<open>The options of \<open>createClient\<close>, and the constants it binds for every callable.
  \<open>cl_fetch\<close> and \<open>global_fetch\<close> are function values; the interceptor is known by its
  identity.\<close>

record client_options =
  entrypointUrl :: string
  cl_transformer :: "transformer option"
  cl_init :: "props option"
  cl_fetch :: jsval
  cl_interceptor :: "nat option"

record client_env =
  env_transformer :: transformer
  env_entrypointUrl :: string
  env_baseFetch :: jsval
  env_baseInit :: props
  env_interceptor :: "nat option"

definition client_env_of :: "transformer \<Rightarrow> jsval \<Rightarrow> client_options \<Rightarrow> client_env" where
  "client_env_of json global_fetch options =
     \<lparr>env_transformer = (case cl_transformer options of Some t \<Rightarrow> t | None \<Rightarrow> json),
      env_entrypointUrl =
        (if entrypointUrl options \<noteq> [] \<and> last (entrypointUrl options) = CHR ''/''
         then butlast (entrypointUrl options) else entrypointUrl options),
      env_baseFetch = nullish_or (cl_fetch options) global_fetch,
      env_baseInit = (case cl_init options of Some i \<Rightarrow> i | None \<Rightarrow> []),
      env_interceptor = cl_interceptor options\<rparr>"

text \<open>\<open>args[i]\<close>\<close>

definition arg_at :: "jsval list \<Rightarrow> nat \<Rightarrow> jsval" where
  "arg_at args i = (if i < length args then args ! i else JUndefined)"

fun decl_is_null :: "zod_decl \<Rightarrow> bool" where
  "decl_is_null Null = True"
| "decl_is_null (ZodType v) = False"
| "decl_is_null Undefined = False"

text \<open>\<open>parseArgs\<close>: for a null input the init is a fresh object, a shallow copy of the
  first argument; otherwise input and init are the first two arguments themselves.\<close>

definition parseArgs :: "schema_endpoint \<Rightarrow> jsval list \<Rightarrow> heap \<Rightarrow> jsval \<times> jsval \<times> heap" where
  "parseArgs schemaEntry args h =
     (if decl_is_null (ep_input schemaEntry)
      then (JUndefined, JRef (length h), h @ [assign_props [] (own_props h (arg_at args 0))])
      else (arg_at args 0, arg_at args 1, h))"

text \<open>\<open>delete init?.fetch\<close>: the object the reference names loses the property.\<close>

fun delete_fetch :: "jsval \<Rightarrow> heap \<Rightarrow> heap" where
  "delete_fetch (JRef r) h = (if r < length h then h[r := delete_prop ''fetch'' (h ! r)] else h)"
| "delete_fetch v h = h"

text \<open>The request init and the search query, built before the fetch.\<close>

definition build_request ::
  "(string \<Rightarrow> string) \<Rightarrow> client_env \<Rightarrow> string \<Rightarrow> schema_endpoint \<Rightarrow> jsval \<Rightarrow> jsval \<Rightarrow> heap
     \<Rightarrow> props \<times> string"
where
  "build_request encodeURIComponent env method schemaEntry input init h =
     (let baseInit = env_baseInit env;
          headers = assign_props (assign_props [] (own_props h (get_prop h (JObj baseInit) ''headers'')))
                      (own_props h (get_prop h init ''headers''));
          requestInit =
            set_prop ''method'' (JStr (toUpperCase method))
              (set_prop ''headers'' (JObj headers)
                 (assign_props baseInit (own_props h init)))
      in if \<not> decl_is_null (ep_input schemaEntry) \<and> input \<noteq> JUndefined then
           (let serializedInput = serialize (env_transformer env) input
            in if method = ''get''
               then (requestInit, ''__body='' @ encodeURIComponent serializedInput)
               else (set_prop ''body'' (JStr serializedInput)
                       (set_prop ''headers''
                          (JObj (set_prop ''Content-Type'' (JStr ''application/json'') headers))
                          requestInit),
                     []))
         else (requestInit, []))"

text \<open>The callable \<open>async (...args) \<Rightarrow> ...\<close> bound to \<open>path\<close>, \<open>method\<close> and \<open>schemaEntry\<close>.
  \<open>encodeURIComponent\<close> is the platform's; \<open>call_fetch f url init\<close> is the response that
  the function value \<open>f\<close> gives when called as a fetch.\<close>

definition call_endpoint ::
  "(string \<Rightarrow> string) \<Rightarrow> (nat \<Rightarrow> string \<Rightarrow> props \<Rightarrow> response) \<Rightarrow> client_env
     \<Rightarrow> string \<Rightarrow> string \<Rightarrow> schema_endpoint \<Rightarrow> jsval list \<Rightarrow> heap
     \<Rightarrow> call_outcome \<times> heap \<times> client_event list"
where
  "call_endpoint encodeURIComponent call_fetch env path method schemaEntry args h0 =
     (let (input, init, h) = parseArgs schemaEntry args h0
      in if decl_truthy (ep_input schemaEntry) \<and> \<not> truthy input
         then (Rejected (Error ''Input data argument not provided.''), h, [])
         else
           (let (requestInit, searchQuery) =
                  build_request encodeURIComponent env method schemaEntry input init h;
                fetch = nullish_or (get_prop h init ''fetch'') (env_baseFetch env);
                h' = delete_fetch init h;
                search = (if searchQuery \<noteq> [] then ''?'' @ searchQuery else []);
                url = env_entrypointUrl env @ path @ search
            in case fetch of
                 JFun f \<Rightarrow>
                   (let fetchResult = call_fetch f url requestInit;
                        ev = FetchCall f url requestInit #
                          (if \<not> truthy (get_prop h' init ''skipInterceptor'')
                           then (case env_interceptor env of
                                   Some i \<Rightarrow> [InterceptorCall i method path fetchResult
                                                (get_prop h' init ''ctx'')]
                                 | None \<Rightarrow> [])
                           else [])
                    in if resp_ok fetchResult
                       then (Resolved
                               (if \<not> decl_is_null (ep_output schemaEntry)
                                then deserialize (env_transformer env)
                                       (JStr (resp_text fetchResult))
                                else JNull), h', ev)
                       else (Rejected
                               (new_HttpError method path (resp_status fetchResult)
                                  (if resp_text fetchResult \<noteq> [] then resp_text fetchResult
                                   else resp_statusText fetchResult)), h', ev))
               | _ \<Rightarrow> (Rejected TypeError, h', [])))"

text \<open>Calling a node of the fetcher tree: only a callable can be called.\<close>

fun call_fetcher ::
  "(string \<Rightarrow> string) \<Rightarrow> (nat \<Rightarrow> string \<Rightarrow> props \<Rightarrow> response) \<Rightarrow> client_env
     \<Rightarrow> fetcher \<Rightarrow> jsval list \<Rightarrow> heap \<Rightarrow> call_outcome \<times> heap \<times> client_event list"
where
  "call_fetcher enc call_fetch env (Callable path method schemaEntry) args h =
     call_endpoint enc call_fetch env path method schemaEntry args h"
| "call_fetcher enc call_fetch env (Fetchers fs) args h = (Rejected TypeError, h, [])"

text \<open>\<open>createClient\<close>: the fetcher tree.\<close>

definition createClient :: "(string \<Rightarrow> string) \<Rightarrow> schema \<Rightarrow> fetcher" where
  "createClient kebab schema = Fetchers (fillClientFetcher kebab schema [] [])"

section \<open>Paths through the trees\<close>

text \<open>Following a chain of keys from a node: \<open>schema.users.get\<close>, \<open>fetcher.users.get\<close>,
  \<open>handlers.users.get\<close>.\<close>

fun entry_at :: "schema_entry \<Rightarrow> string list \<Rightarrow> schema_entry option" where
  "entry_at e [] = Some e"
| "entry_at (Nested s) (k # ks) = (case map_of s k of Some e \<Rightarrow> entry_at e ks | None \<Rightarrow> None)"
| "entry_at (Endpoint e) (k # ks) = None"

fun fetcher_at :: "fetcher \<Rightarrow> string list \<Rightarrow> fetcher option" where
  "fetcher_at f [] = Some f"
| "fetcher_at (Fetchers fs) (k # ks) =
     (case map_of fs k of Some f \<Rightarrow> fetcher_at f ks | None \<Rightarrow> None)"
| "fetcher_at (Callable p m e) (k # ks) = None"

fun handler_at :: "handler_entry \<Rightarrow> string list \<Rightarrow> handler_entry option" where
  "handler_at h [] = Some h"
| "handler_at (HandlerTree hs) (k # ks) =
     (case map_of hs k of Some h \<Rightarrow> handler_at h ks | None \<Rightarrow> None)"
| "handler_at (HandlerFn f) (k # ks) = None"
| "handler_at HandlerUndefined (k # ks) = None"

text \<open>A schema is a tree of JavaScript objects: at every node the keys are distinct.\<close>

fun wf_entry :: "schema_entry \<Rightarrow> bool" where
  "wf_entry (Endpoint e) = True"
| "wf_entry (Nested s) = (distinct (map fst s) \<and> list_all wf_entry (map snd s))"

definition wf_schema :: "schema \<Rightarrow> bool" where
  "wf_schema s = wf_entry (Nested s)"

text \<open>The path as the specification words it: a slash and the normalised ancestor keys
  joined by slashes; the empty string for an Endpoint at the root.\<close>

definition spec_path :: "(string \<Rightarrow> string) \<Rightarrow> string list \<Rightarrow> string" where
  "spec_path kebab ks = (if ks = [] then [] else ''/'' @ join ''/'' (map kebab ks))"

section \<open>Notions used in the statements\<close>

text \<open>The payload string the server finds on the wire: the decoded \<open>__body\<close> query
  parameter of a GET request (null when the parameter is absent or empty), \<open>req.body\<close>
  otherwise. These are the two \<open>body = ...\<close> assignments of \<open>getInput\<close>.\<close>

definition wire_payload :: "(string \<Rightarrow> string) \<Rightarrow> request \<Rightarrow> jsval" where
  "wire_payload decodeURIComponent req =
     (if req_method req = ''GET''
      then (case query_body req of
              Some q \<Rightarrow> if q \<noteq> [] then JStr (decodeURIComponent q) else JNull
            | None \<Rightarrow> JNull)
      else req_body req)"

text \<open>A response as the fetch standard builds it: \<open>ok\<close> holds exactly for a status from
  200 to 299.\<close>

definition wf_response :: "response \<Rightarrow> bool" where
  "wf_response r = (resp_ok r = (200 \<le> resp_status r \<and> resp_status r \<le> 299))"

text \<open>The call passes the client's guard \<open>schemaEntry.input != null && !input\<close>.\<close>

definition passes_guard :: "schema_endpoint \<Rightarrow> jsval \<Rightarrow> bool" where
  "passes_guard schemaEntry input = (\<not> (decl_truthy (ep_input schemaEntry) \<and> \<not> truthy input))"

text \<open>The router a traversal leaves behind, however it ended.\<close>

fun router_of :: "fill_result \<Rightarrow> router" where
  "router_of (Filled r) = r"
| "router_of (Threw e r) = r"

text \<open>A traversal that returns normally has only added registrations.\<close>

definition grows :: "router \<Rightarrow> fill_result \<Rightarrow> bool" where
  "grows r res = (case res of Filled r' \<Rightarrow> set r \<subseteq> set r' | Threw e r' \<Rightarrow> True)"

text \<open>A registration of a request handler is derived from the schema: it stands at the
  path of a chain of keys below the node being walked, and that chain leads to its
  Endpoint.\<close>

definition derived ::
  "(string \<Rightarrow> string) \<Rightarrow> schema option \<Rightarrow> string list \<Rightarrow> registration \<Rightarrow> bool" where
  "derived kebab schema names reg =
     (\<forall>m p e m' h. reg = (m, p, EndpointHandler e m' h) \<longrightarrow>
        (\<exists>s ks. schema = Some s \<and> m' = m \<and> p = join ''/'' ('''' # names @ map kebab ks) \<and>
           entry_at (Nested s) (ks @ [m]) = Some (Endpoint e)))"

definition sound ::
  "(string \<Rightarrow> string) \<Rightarrow> schema option \<Rightarrow> string list \<Rightarrow> router \<Rightarrow> fill_result \<Rightarrow> bool" where
  "sound kebab schema names r res =
     (\<forall>reg \<in> set (router_of res). reg \<in> set r \<or> derived kebab schema names reg)"

text \<open>What the client traversal stores under a key of the schema.\<close>

fun fetcher_of :: "(string \<Rightarrow> string) \<Rightarrow> string list \<Rightarrow> string \<Rightarrow> schema_entry \<Rightarrow> fetcher" where
  "fetcher_of kebab names k (Endpoint e) = Callable (join ''/'' ('''' # names)) k e"
| "fetcher_of kebab names k (Nested s) =
     Fetchers (fillClientFetcher kebab s (names @ [kebab k]) [])"

section \<open>A sample application\<close>

text \<open>A small schema in the shape of the specification's scenarios, with its handlers,
  a transformer and a fetch, for the concrete evaluations below.\<close>

text \<open>The sample normaliser writes a hyphen and the lower-case letter for every capital
  letter: \<open>userProfiles\<close> becomes \<open>user-profiles\<close>.\<close>

fun sample_kebab :: "string \<Rightarrow> string" where
  "sample_kebab [] = []"
| "sample_kebab (c # cs) =
     (case map_of (zip ''ABCDEFGHIJKLMNOPQRSTUVWXYZ'' ''abcdefghijklmnopqrstuvwxyz'') c of
        Some l \<Rightarrow> CHR ''-'' # l # sample_kebab cs
      | None \<Rightarrow> c # sample_kebab cs)"

definition CreateUserSchema :: "jsval \<Rightarrow> parse_result" where
  "CreateUserSchema v =
     (case v of
        JObj ps \<Rightarrow>
          (case map_of ps ''name'' of
             Some (JStr n) \<Rightarrow> ParseSuccess v
           | _ \<Rightarrow> ParseFailure
                  [\<lparr>issue_code = ''invalid_type'', issue_path = [JStr ''name''],
                    issue_message = ''Required''\<rparr>])
      | _ \<Rightarrow> ParseFailure
             [\<lparr>issue_code = ''invalid_type'', issue_path = [],
               issue_message = ''Expected object''\<rparr>])"

definition sample_endpoint :: "zod_decl \<Rightarrow> zod_decl \<Rightarrow> schema_endpoint" where
  "sample_endpoint i out =
     \<lparr>ep_input = i, ep_output = out, isMetadataUsed = Some False, isMetadataRequired = None,
      cacheControl = None, autoScopeInvalidationDepth = None, invalidate = None\<rparr>"

definition sample_schema :: schema where
  "sample_schema =
     [(''users'', Nested [(''get'', Endpoint (sample_endpoint Null Undefined)),
                          (''post'', Endpoint (sample_endpoint (ZodType CreateUserSchema) Undefined))]),
      (''userProfiles'', Nested [(''put'', Endpoint (sample_endpoint Undefined Null))])]"

definition echo :: handler where
  "echo i metadata req res = (i, res)"

definition sample_transformer :: transformer where
  "sample_transformer =
     \<lparr>serialize = (\<lambda>v. case v of JStr s \<Rightarrow> s | JNull \<Rightarrow> ''null'' | _ \<Rightarrow> ''{}''),
      deserialize = (\<lambda>w. case w of
                           JStr s \<Rightarrow> if s = ''null'' then JNull
                                     else if s = ''{}'' then JObj [] else JStr s
                         | _ \<Rightarrow> JNull)\<rparr>"

definition fresh_res :: res_state where
  "fresh_res = \<lparr>statusCode = 200, res_headers = [], headersSent = False,
                writableEnded = False, res_sent = None\<rparr>"

definition get_request :: "string option \<Rightarrow> request" where
  "get_request q = \<lparr>req_method = ''GET'', query_body = q, req_body = JUndefined\<rparr>"

definition post_request :: "jsval \<Rightarrow> request" where
  "post_request b = \<lparr>req_method = ''POST'', query_body = None, req_body = b\<rparr>"

text \<open>The fetch function 0 answers 200; every other one answers 404 with an empty body.\<close>

definition sample_fetch :: "nat \<Rightarrow> string \<Rightarrow> props \<Rightarrow> response" where
  "sample_fetch f url init =
     (if f = 0
      then \<lparr>resp_ok = True, resp_status = 200, resp_statusText = ''OK'', resp_text = ''null''\<rparr>
      else \<lparr>resp_ok = False, resp_status = 404, resp_statusText = ''Not Found'',
            resp_text = []\<rparr>)"

definition sample_env :: client_env where
  "sample_env =
     client_env_of sample_transformer (JFun 0)
       \<lparr>entrypointUrl = ''http://h/api/'', cl_transformer = None, cl_init = None,
        cl_fetch = JUndefined, cl_interceptor = None\<rparr>"

definition sample_handlers :: handler_entry where
  "sample_handlers =
     HandlerTree [(''userProfiles'', HandlerTree [(''put'', HandlerFn echo)]),
                  (''users'', HandlerTree [(''post'', HandlerFn echo)])]"

text \<open>Two handler trees with a misspelt key \<open>userz\<close>: over a function, and over a nested
  handler object.\<close>

definition misspelt_handlers :: handler_entry where
  "misspelt_handlers =
     HandlerTree [(''userz'', HandlerFn echo),
                  (''users'', HandlerTree [(''post'', HandlerFn echo)])]"

definition misplaced_handlers :: handler_entry where
  "misplaced_handlers =
     HandlerTree [(''userz'', HandlerTree [(''get'', HandlerFn echo)]),
                  (''users'', HandlerTree [(''post'', HandlerFn echo)])]"

text \<open>A store with one per-call init object, which carries its own fetch and a body.\<close>

definition init_heap :: heap where
  "init_heap = [[(''fetch'', JFun 1), (''body'', JStr ''x'')]]"

section \<open>Path agreement between client and server\<close>

lemma join_cons_empty: "join sep ([] # xs) = (if xs = [] then [] else sep @ join sep xs)"
  by (cases xs) auto

lemma path_is_spec_path: "join ''/'' ('''' # map kebab ks) = spec_path kebab ks"
  by (simp add: join_cons_empty spec_path_def)

lemma map_of_set_prop: "map_of (set_prop k v ps) k' = (if k' = k then Some v else map_of ps k')"
  by (induction ps) auto

lemma fill_client_other:
  "k \<notin> fst ` set s \<Longrightarrow> map_of (fillClientFetcher kebab s names result) k = map_of result k"
  by (induction kebab s names result rule: fillClientFetcher.induct)
     (auto simp: map_of_set_prop)

lemma fill_client_lookup:
  "distinct (map fst s) \<Longrightarrow> map_of s k = Some e \<Longrightarrow>
   map_of (fillClientFetcher kebab s names result) k = Some (fetcher_of kebab names k e)"
  by (induction kebab s names result rule: fillClientFetcher.induct)
     (auto simp: map_of_set_prop fill_client_other split: if_splits)

lemma wf_entry_lookup: "wf_entry (Nested s) \<Longrightarrow> map_of s k = Some e \<Longrightarrow> wf_entry e"
  by (auto simp: list_all_iff dest!: map_of_SomeD)

text \<open>The client: the callable found under a chain of keys carries the path of the
  normalised ancestor keys.\<close>

lemma client_chain:
  "wf_entry (Nested s) \<Longrightarrow> entry_at (Nested s) (ks @ [m]) = Some (Endpoint e) \<Longrightarrow>
   fetcher_at (Fetchers (fillClientFetcher kebab s names [])) (ks @ [m])
     = Some (Callable (join ''/'' ('''' # names @ map kebab ks)) m e)"
proof (induction ks arbitrary: s names)
  case Nil
  then show ?case
    by (auto simp: fill_client_lookup split: option.splits)
next
  case (Cons k ks)
  from Cons.prems(2) obtain e' where
    e': "map_of s k = Some e'" "entry_at e' (ks @ [m]) = Some (Endpoint e)"
    by (auto split: option.splits)
  then obtain s' where s': "e' = Nested s'" by (cases e'; cases ks) auto
  have wf': "wf_entry (Nested s')" using wf_entry_lookup[OF Cons.prems(1) e'(1)] s' by simp
  have "map_of (fillClientFetcher kebab s names []) k = Some (fetcher_of kebab names k e')"
    using Cons.prems(1) e'(1) by (intro fill_client_lookup) auto
  then show ?case
    using Cons.IH[OF wf', of "names @ [kebab k]"] e'(2) s' by simp
qed

text \<open>The server loop, one entry at a time.\<close>

lemma isEndpoint_iff: "isEndpoint x \<longleftrightarrow> (\<exists>e. x = Some (Endpoint e))"
  by (cases x rule: isEndpoint.cases) auto

lemma sub_schema_Some: "sub_schema x = Some s' \<longleftrightarrow> x = Some (Nested s')"
  by (cases x rule: sub_schema.cases) auto

lemma entries_endpoint:
  "map_of s name = Some (Endpoint e) \<Longrightarrow>
   fillRouter_entries kebab (Some s) ((name, handler) # rest) names router =
     fillRouter_entries kebab (Some s) rest names
       ((if name \<noteq> ''get'' then router @ [(name, join ''/'' ('''' # names), TextMiddleware)]
         else router) @ [(name, join ''/'' ('''' # names), EndpointHandler e name handler)])"
  by (simp add: Let_def)

lemma entries_descend:
  "\<not> isEndpoint (map_of s name) \<Longrightarrow>
   fillRouter_entries kebab (Some s) ((name, handler) # rest) names router =
     (case fillRouter kebab (sub_schema (map_of s name)) handler (names @ [kebab name]) router of
        Filled router' \<Rightarrow> fillRouter_entries kebab (Some s) rest names router'
      | Threw e router' \<Rightarrow> Threw e router')"
  by (cases "map_of s name" rule: isEndpoint.cases) simp_all

lemma entries_grows_step:
  assumes h: "\<And>schema names r. grows r (fillRouter kebab schema handler names r)"
      and rest: "\<And>r. grows r (fillRouter_entries kebab schema rest names r)"
  shows "grows r (fillRouter_entries kebab schema ((name, handler) # rest) names r)"
proof (cases schema)
  case None
  then show ?thesis by (simp add: grows_def)
next
  case (Some s)
  show ?thesis
  proof (cases "isEndpoint (map_of s name)")
    case True
    then obtain e where e: "map_of s name = Some (Endpoint e)"
      by (auto simp: isEndpoint_iff)
    show ?thesis
      using rest[of "(if name \<noteq> ''get''
                      then r @ [(name, join ''/'' ('''' # names), TextMiddleware)] else r)
                     @ [(name, join ''/'' ('''' # names), EndpointHandler e name handler)]"]
      unfolding Some entries_endpoint[OF e]
      by (auto simp: grows_def split: fill_result.splits if_splits)
  next
    case False
    show ?thesis
    proof (cases "fillRouter kebab (sub_schema (map_of s name)) handler (names @ [kebab name]) r")
      case (Filled r1)
      with h[of r "sub_schema (map_of s name)" "names @ [kebab name]"] rest[of r1]
      show ?thesis
        unfolding Some entries_descend[OF False]
        by (auto simp: grows_def split: fill_result.splits)
    next
      case (Threw e r1)
      then show ?thesis
        unfolding Some entries_descend[OF False] by (simp add: grows_def)
    qed
  qed
qed

lemma fillRouter_grows: "grows r (fillRouter kebab schema h names r)"
proof (induction h arbitrary: schema names r)
  case (HandlerFn f)
  show ?case by (simp add: grows_def)
next
  case HandlerUndefined
  show ?case by (simp add: grows_def)
next
  case (HandlerTree hs)
  have "grows r (fillRouter_entries kebab schema hs' names r)" if "set hs' \<subseteq> set hs" for hs' r
    using that
  proof (induction hs' arbitrary: r)
    case Nil
    show ?case by (simp add: grows_def)
  next
    case (Cons p hs')
    obtain name handler where p: "p = (name, handler)" by (cases p)
    have "(name, handler) \<in> set hs" using Cons.prems p by auto
    then have h: "\<And>schema names r. grows r (fillRouter kebab schema handler names r)"
      using HandlerTree.IH[of "(name, handler)" handler] by simp
    show ?case
      unfolding p using h Cons.IH Cons.prems by (intro entries_grows_step) auto
  qed
  then show ?case by simp
qed

lemma fillRouter_entries_grows: "grows r (fillRouter_entries kebab schema hs names r)"
  using fillRouter_grows[of r kebab schema "HandlerTree hs" names] by simp

text \<open>Every entry of the handler object is visited: its handler is registered when its
  key names an Endpoint, and walked below the normalised key otherwise.\<close>

lemma entries_visit:
  assumes "(k, h) \<in> set hs"
      and "fillRouter_entries kebab (Some s) hs names r = Filled r'"
  shows "if isEndpoint (map_of s k)
         then \<exists>e. map_of s k = Some (Endpoint e) \<and>
                (k, join ''/'' ('''' # names), EndpointHandler e k h) \<in> set r'
         else \<exists>r1 r2. fillRouter kebab (sub_schema (map_of s k)) h (names @ [kebab k]) r1
                  = Filled r2 \<and> set r2 \<subseteq> set r'"
  using assms
proof (induction hs arbitrary: r)
  case Nil
  then show ?case by simp
next
  case (Cons p hs)
  obtain name handler where p: "p = (name, handler)" by (cases p)
  show ?case
  proof (cases "isEndpoint (map_of s name)")
    case True
    then obtain e where e: "map_of s name = Some (Endpoint e)"
      by (auto simp: isEndpoint_iff)
    let ?r1 = "(if name \<noteq> ''get''
                then r @ [(name, join ''/'' ('''' # names), TextMiddleware)] else r)
               @ [(name, join ''/'' ('''' # names), EndpointHandler e name handler)]"
    have rest: "fillRouter_entries kebab (Some s) hs names ?r1 = Filled r'"
      using Cons.prems(2) unfolding p entries_endpoint[OF e] .
    show ?thesis
    proof (cases "(k, h) = (name, handler)")
      case True
      have "set ?r1 \<subseteq> set r'"
        using fillRouter_entries_grows[of ?r1 kebab "Some s" hs names] rest
        by (simp add: grows_def)
      then show ?thesis using True e by auto
    next
      case False
      then have "(k, h) \<in> set hs" using Cons.prems(1) p by auto
      from Cons.IH[OF this rest] show ?thesis .
    qed
  next
    case False
    from Cons.prems(2) obtain r1 where
      r1: "fillRouter kebab (sub_schema (map_of s name)) handler (names @ [kebab name]) r
             = Filled r1"
          "fillRouter_entries kebab (Some s) hs names r1 = Filled r'"
      unfolding p entries_descend[OF False] by (auto split: fill_result.splits)
    show ?thesis
    proof (cases "(k, h) = (name, handler)")
      case True
      have "set r1 \<subseteq> set r'"
        using fillRouter_entries_grows[of r1 kebab "Some s" hs names] r1(2)
        by (simp add: grows_def)
      then show ?thesis using True False r1(1) by auto
    next
      case neq: False
      then have "(k, h) \<in> set hs" using Cons.prems(1) p by auto
      from Cons.IH[OF this r1(2)] show ?thesis .
    qed
  qed
qed

text \<open>The server: the handler found under a chain of keys is registered at the path of
  the normalised ancestor keys.\<close>

lemma server_chain:
  "handler_at H (ks @ [m]) = Some h \<Longrightarrow> entry_at (Nested s) (ks @ [m]) = Some (Endpoint e) \<Longrightarrow>
   fillRouter kebab (Some s) H names r = Filled r' \<Longrightarrow>
   (m, join ''/'' ('''' # names @ map kebab ks), EndpointHandler e m h) \<in> set r'"
proof (induction ks arbitrary: H s names r r')
  case Nil
  from Nil.prems(1) obtain hs where H: "H = HandlerTree hs" and hm: "map_of hs m = Some h"
    by (cases H) (auto split: option.splits)
  from Nil.prems(2) have e: "map_of s m = Some (Endpoint e)"
    by (auto split: option.splits)
  have "(m, h) \<in> set hs" using hm by (rule map_of_SomeD)
  from entries_visit[OF this, of kebab s names r r'] Nil.prems(3) H e
  show ?case by simp
next
  case (Cons k ks)
  from Cons.prems(1) obtain hs H' where H: "H = HandlerTree hs" and hk: "map_of hs k = Some H'"
    and H': "handler_at H' (ks @ [m]) = Some h"
    by (cases H) (auto split: option.splits)
  from Cons.prems(2) obtain e' where e': "map_of s k = Some e'"
      "entry_at e' (ks @ [m]) = Some (Endpoint e)"
    by (auto split: option.splits)
  then obtain s' where s': "e' = Nested s'" by (cases e'; cases ks) auto
  have "(k, H') \<in> set hs" using hk by (rule map_of_SomeD)
  from entries_visit[OF this, of kebab s names r r'] Cons.prems(3) H e' s'
  obtain r1 r2 where r12: "fillRouter kebab (Some s') H' (names @ [kebab k]) r1 = Filled r2"
     "set r2 \<subseteq> set r'"
    by auto
  from Cons.IH[OF H' _ r12(1)] e'(2) s' r12(2)
  show ?case by auto
qed

text \<open>Conversely, the server registers request handlers only at paths derived from the
  schema.\<close>

lemma derived_descend:
  assumes "derived kebab (sub_schema (map_of s name)) (names @ [kebab name]) reg"
  shows "derived kebab (Some s) names reg"
  unfolding derived_def
proof (intro allI impI)
  fix m p e m' h assume reg: "reg = (m, p, EndpointHandler e m' h)"
  with assms obtain s' ks where
    a: "sub_schema (map_of s name) = Some s'" "m' = m"
       "p = join ''/'' ('''' # (names @ [kebab name]) @ map kebab ks)"
       "entry_at (Nested s') (ks @ [m]) = Some (Endpoint e)"
    unfolding derived_def by blast
  from a(1) have "map_of s name = Some (Nested s')" by (simp add: sub_schema_Some)
  then have "entry_at (Nested s) ((name # ks) @ [m]) = Some (Endpoint e)" using a(4) by simp
  moreover have "p = join ''/'' ('''' # names @ map kebab (name # ks))" using a(3) by simp
  ultimately show "\<exists>s0 ks. Some s = Some s0 \<and> m' = m \<and>
           p = join ''/'' ('''' # names @ map kebab ks) \<and>
           entry_at (Nested s0) (ks @ [m]) = Some (Endpoint e)"
    using a(2) by blast
qed

lemma derived_here:
  assumes "map_of s name = Some (Endpoint e)"
  shows "derived kebab (Some s) names
           (name, join ''/'' ('''' # names), EndpointHandler e name handler)"
  unfolding derived_def
proof (intro allI impI)
  fix m p e' m' h
  assume "(name, join ''/'' ('''' # names), EndpointHandler e name handler)
            = (m, p, EndpointHandler e' m' h)"
  then have eq: "m = name" "p = join ''/'' ('''' # names)" "e' = e" "m' = name" by auto
  have "entry_at (Nested s) ([] @ [m]) = Some (Endpoint e')" using assms eq by simp
  moreover have "p = join ''/'' ('''' # names @ map kebab [])" using eq by simp
  ultimately show "\<exists>s0 ks. Some s = Some s0 \<and> m' = m \<and>
           p = join ''/'' ('''' # names @ map kebab ks) \<and>
           entry_at (Nested s0) (ks @ [m]) = Some (Endpoint e')"
    using eq by blast
qed

lemma derived_text: "derived kebab schema names (m, p, TextMiddleware)"
  by (simp add: derived_def)

lemma entries_sound_step:
  assumes h: "\<And>schema names r. sound kebab schema names r (fillRouter kebab schema handler names r)"
      and rest: "\<And>r. sound kebab schema names r (fillRouter_entries kebab schema rest names r)"
  shows "sound kebab schema names r
           (fillRouter_entries kebab schema ((name, handler) # rest) names r)"
proof (cases schema)
  case None
  then show ?thesis by (simp add: sound_def)
next
  case (Some s)
  show ?thesis
  proof (cases "isEndpoint (map_of s name)")
    case True
    then obtain e where e: "map_of s name = Some (Endpoint e)"
      by (auto simp: isEndpoint_iff)
    let ?p = "join ''/'' ('''' # names)"
    let ?r1 = "(if name \<noteq> ''get'' then r @ [(name, ?p, TextMiddleware)] else r)
                 @ [(name, ?p, EndpointHandler e name handler)]"
    have new: "reg \<in> set r \<or> derived kebab schema names reg" if "reg \<in> set ?r1" for reg
      using that derived_here[OF e, of kebab names handler]
        derived_text[of kebab schema names name ?p]
      unfolding Some by (auto split: if_splits)
    show ?thesis
      using rest[of ?r1] new unfolding Some entries_endpoint[OF e] sound_def by blast
  next
    case False
    let ?res = "fillRouter kebab (sub_schema (map_of s name)) handler (names @ [kebab name]) r"
    have sub: "reg \<in> set r \<or> derived kebab schema names reg"
      if "reg \<in> set (router_of ?res)" for reg
      using h[of "sub_schema (map_of s name)" "names @ [kebab name]" r] that derived_descend
      unfolding Some sound_def by blast
    show ?thesis
    proof (cases ?res)
      case (Filled r1)
      show ?thesis
        using rest[of r1] sub Filled unfolding Some entries_descend[OF False] sound_def
        by auto
    next
      case (Threw e r1)
      show ?thesis
        using sub Threw unfolding Some entries_descend[OF False] sound_def
        by auto
    qed
  qed
qed

lemma fillRouter_sound: "sound kebab schema names r (fillRouter kebab schema h names r)"
proof (induction h arbitrary: schema names r)
  case (HandlerFn f)
  show ?case by (simp add: sound_def)
next
  case HandlerUndefined
  show ?case by (simp add: sound_def)
next
  case (HandlerTree hs)
  have "sound kebab schema names r (fillRouter_entries kebab schema hs' names r)"
    if "set hs' \<subseteq> set hs" for hs' r
    using that
  proof (induction hs' arbitrary: r)
    case Nil
    show ?case by (simp add: sound_def)
  next
    case (Cons p hs')
    obtain name handler where p: "p = (name, handler)" by (cases p)
    have "(name, handler) \<in> set hs" using Cons.prems p by auto
    then have h: "\<And>schema names r.
        sound kebab schema names r (fillRouter kebab schema handler names r)"
      using HandlerTree.IH[of "(name, handler)" handler] by simp
    show ?case
      unfolding p using h Cons.IH Cons.prems by (intro entries_sound_step) auto
  qed
  then show ?case by simp
qed

lemma sample_server:
  "createServer sample_kebab sample_schema sample_handlers =
     Filled [(''put'', ''/user-profiles'', TextMiddleware),
             (''put'', ''/user-profiles'',
              EndpointHandler (sample_endpoint Undefined Null) ''put'' (HandlerFn echo)),
             (''post'', ''/users'', TextMiddleware),
             (''post'', ''/users'',
              EndpointHandler (sample_endpoint (ZodType CreateUserSchema) Undefined) ''post''
                (HandlerFn echo))]"
  by (simp add: createServer_def sample_schema_def sample_handlers_def Let_def)

lemma sample_wf: "wf_schema sample_schema"
  by (simp add: wf_schema_def sample_schema_def)

lemma sample_entry:
  "entry_at (Nested sample_schema) ([''userProfiles''] @ [''put''])
     = Some (Endpoint (sample_endpoint Undefined Null))"
  by (simp add: sample_schema_def)

lemma sample_handler_at:
  "handler_at sample_handlers ([''userProfiles''] @ [''put'']) = Some (HandlerFn echo)"
  by (simp add: sample_handlers_def)

text \<open>
  Claim C1. For a schema (a tree of objects, so with distinct keys at every node) and a
  chain of keys \<open>ks @ [m]\<close> that leads to an Endpoint, the client and the server derive
  the same path: the callable that the client stores under the chain carries the path
  \<open>spec_path kebab ks\<close>, a slash and the normalised ancestor keys joined by slashes (the
  empty string for an Endpoint at the root); whenever the handler tree has a handler
  under the same chain and the server traversal returns, the server has registered that
  handler for the verb \<open>m\<close> at the same path; and whatever the handler tree, every request
  handler the server registers stands at the path and verb of a callable of the client for
  the same Endpoint.
\<close>

theorem path_agreement:
  assumes "wf_schema schema"
      and "entry_at (Nested schema) (ks @ [m]) = Some (Endpoint e)"
  shows "fetcher_at (createClient kebab schema) (ks @ [m])
           = Some (Callable (spec_path kebab ks) m e)
       \<and> (\<forall>handlers h router.
             handler_at handlers (ks @ [m]) = Some h \<and>
             createServer kebab schema handlers = Filled router
             \<longrightarrow> (m, spec_path kebab ks, EndpointHandler e m h) \<in> set router)
       \<and> (\<forall>handlers m' p e' v h.
             (m', p, EndpointHandler e' v h)
               \<in> set (router_of (createServer kebab schema handlers))
             \<longrightarrow> (\<exists>ks'. v = m' \<and> p = spec_path kebab ks' \<and>
                    fetcher_at (createClient kebab schema) (ks' @ [m'])
                      = Some (Callable p m' e')))"
proof (intro conjI allI impI)
  show "fetcher_at (createClient kebab schema) (ks @ [m])
           = Some (Callable (spec_path kebab ks) m e)"
    using client_chain[of schema ks m e kebab "[]"] assms
    by (simp add: createClient_def wf_schema_def path_is_spec_path)
next
  fix handlers h router
  assume "handler_at handlers (ks @ [m]) = Some h \<and>
          createServer kebab schema handlers = Filled router"
  then show "(m, spec_path kebab ks, EndpointHandler e m h) \<in> set router"
    using server_chain[of handlers ks m h schema e kebab "[]" "[]" router] assms(2)
    by (simp add: createServer_def path_is_spec_path)
next
  fix handlers m' p e' v h
  assume reg: "(m', p, EndpointHandler e' v h)
                 \<in> set (router_of (createServer kebab schema handlers))"
  have "sound kebab (Some schema) [] [] (createServer kebab schema handlers)"
    unfolding createServer_def by (rule fillRouter_sound)
  with reg have "derived kebab (Some schema) [] (m', p, EndpointHandler e' v h)"
    by (auto simp: sound_def)
  then obtain ks' where k: "v = m'" "p = join ''/'' ('''' # map kebab ks')"
      "entry_at (Nested schema) (ks' @ [m']) = Some (Endpoint e')"
    unfolding derived_def by auto
  have "fetcher_at (createClient kebab schema) (ks' @ [m']) = Some (Callable p m' e')"
    using client_chain[of schema ks' m' e' kebab "[]"] assms(1) k
    by (simp add: createClient_def wf_schema_def)
  then show "\<exists>ks'. v = m' \<and> p = spec_path kebab ks' \<and>
                    fetcher_at (createClient kebab schema) (ks' @ [m'])
                      = Some (Callable p m' e')"
    using k by (auto simp: path_is_spec_path)
qed

theorem path_agreement_witness:
  "wf_schema sample_schema
   \<and> entry_at (Nested sample_schema) ([''userProfiles''] @ [''put''])
       = Some (Endpoint (sample_endpoint Undefined Null))
   \<and> fetcher_at (createClient sample_kebab sample_schema) [''userProfiles'', ''put'']
       = Some (Callable ''/user-profiles'' ''put'' (sample_endpoint Undefined Null))
   \<and> (''put'', ''/user-profiles'',
        EndpointHandler (sample_endpoint Undefined Null) ''put'' (HandlerFn echo))
       \<in> set (router_of (createServer sample_kebab sample_schema sample_handlers))"
proof -
  note t = path_agreement[OF sample_wf sample_entry, of sample_kebab]
  have sp: "spec_path sample_kebab [''userProfiles''] = ''/user-profiles''"
    by (simp add: spec_path_def)
  from t have "fetcher_at (createClient sample_kebab sample_schema)
                 ([''userProfiles''] @ [''put''])
       = Some (Callable (spec_path sample_kebab [''userProfiles'']) ''put''
                 (sample_endpoint Undefined Null))"
    by (rule conjunct1)
  moreover from t have "(''put'', spec_path sample_kebab [''userProfiles''],
        EndpointHandler (sample_endpoint Undefined Null) ''put'' (HandlerFn echo))
       \<in> set (router_of (createServer sample_kebab sample_schema sample_handlers))"
    using sample_handler_at sample_server by (metis router_of.simps(1))
  ultimately show ?thesis using sample_wf sample_entry sp by simp
qed

section \<open>Handler entries without an Endpoint\<close>

text \<open>Against an undefined schema node the loop throws at its first entry, whatever the
  entry is: \<open>schema[name]\<close> reads a property of undefined.\<close>

lemma entries_undefined_schema:
  "fillRouter_entries kebab None ((name, handler) # rest) names router = Threw TypeError router"
  by simp

text \<open>
  Claim C8, as amended. While a handler object is walked against a schema node that
  exists (a schema object, not undefined), an entry of it that is a plain function (one
  with no enumerable property of its own), under a key that does not name an Endpoint of
  that schema node, is skipped without error and registers nothing: the loop over the
  entries of the handler object, and so \<open>createServer\<close> and \<open>register\<close> for the entries
  of the handler tree's root, give the same result as for the handler object without that
  entry, so every other entry is registered as usual.
\<close>

theorem unmatched_function_entry_skipped:
  assumes "\<not> isEndpoint (map_of schema name)"
  shows "fillRouter_entries kebab (Some schema) (before @ (name, HandlerFn f) # after) names router
           = fillRouter_entries kebab (Some schema) (before @ after) names router
       \<and> createServer kebab schema (HandlerTree (before @ (name, HandlerFn f) # after))
           = createServer kebab schema (HandlerTree (before @ after))
       \<and> register kebab schema router (HandlerTree (before @ (name, HandlerFn f) # after))
           = register kebab schema router (HandlerTree (before @ after))"
proof -
  have loop: "fillRouter_entries kebab (Some schema) (before @ (name, HandlerFn f) # after) names r
           = fillRouter_entries kebab (Some schema) (before @ after) names r" for names r
  proof (induction before arbitrary: r)
    case Nil
    show ?case
      by (simp only: append_Nil entries_descend[OF assms] fillRouter.simps fill_result.case)
  next
    case (Cons p before)
    obtain n h where p: "p = (n, h)" by (cases p)
    show ?case
    proof (cases "isEndpoint (map_of schema n)")
      case True
      then obtain e where e: "map_of schema n = Some (Endpoint e)"
        by (auto simp: isEndpoint_iff)
      show ?thesis unfolding p append_Cons entries_endpoint[OF e] by (rule Cons.IH)
    next
      case False
      show ?thesis unfolding p append_Cons entries_descend[OF False]
        by (simp add: Cons.IH split: fill_result.splits)
    qed
  qed
  show ?thesis
    by (simp add: createServer_def register_def loop)
qed

theorem unmatched_function_entry_skipped_witness:
  "\<not> isEndpoint (map_of sample_schema ''userz'')
   \<and> createServer sample_kebab sample_schema misspelt_handlers
     = Filled [(''post'', ''/users'', TextMiddleware),
               (''post'', ''/users'',
                EndpointHandler (sample_endpoint (ZodType CreateUserSchema) Undefined) ''post''
                  (HandlerFn echo))]"
proof -
  have a: "\<not> isEndpoint (map_of sample_schema ''userz'')"
    by (simp add: sample_schema_def)
  have "createServer sample_kebab sample_schema (HandlerTree ([] @ [(''users'', HandlerTree [(''post'', HandlerFn echo)])]))
     = Filled [(''post'', ''/users'', TextMiddleware),
               (''post'', ''/users'',
                EndpointHandler (sample_endpoint (ZodType CreateUserSchema) Undefined) ''post''
                  (HandlerFn echo))]"
    by (simp add: createServer_def sample_schema_def Let_def)
  with unmatched_function_entry_skipped[OF a, of sample_kebab "[]" echo
         "[(''users'', HandlerTree [(''post'', HandlerFn echo)])]" "[]" "[]"]
  show ?thesis using a by (simp add: misspelt_handlers_def)
qed

text \<open>
  Claim C8 as stated fails for an entry that is a nested handler object: under the
  misspelt key \<open>userz\<close> the traversal walks the object against an undefined schema node,
  throws a \<open>TypeError\<close> at its entry \<open>get\<close>, and the entry \<open>users\<close> after it is not
  registered.
\<close>

theorem unmatched_subtree_throws:
  "createServer sample_kebab sample_schema misplaced_handlers = Threw TypeError []"
  by (simp add: createServer_def sample_schema_def misplaced_handlers_def)

section \<open>Server: input extraction and validation\<close>

lemma getInput_payload:
  "getInput decodeURIComponent req inputSchema transformer =
     (if decl_truthy inputSchema \<and> \<not> truthy (wire_payload decodeURIComponent req)
      then (InputFailure 400
              (JObj [(''error'', JStr (if req_method req = ''GET'' then ''No __body provided''
                                       else ''No body provided''))]), [])
      else getInput_parse (wire_payload decodeURIComponent req) inputSchema transformer)"
  by (simp add: getInput_def wire_payload_def Let_def)

lemma resolve_metadata_events:
  "ev \<in> set (snd (resolve_metadata getMetadata schemaEntry req)) \<Longrightarrow> \<exists>b. ev = GetMetadataCall b"
  by (auto simp: resolve_metadata_def split: if_splits option.splits)

text \<open>
  Claim C3, as amended. For a request that has passed the metadata step, to an Endpoint
  whose input is a validator: when the wire payload is absent (the \<open>__body\<close> parameter of a
  GET request is missing or empty, the body of another request is falsy) the server
  responds 400 with \<open>{error: "No __body provided"}\<close> for GET and \<open>{error: "No body provided"}\<close>
  otherwise, and calls neither the transformer nor the validator nor the handler: the only
  collaborator called is the metadata resolver.
\<close>

theorem missing_payload_rejected:
  assumes "decl_truthy (ep_input schemaEntry)"
      and "\<not> metadata_missing getMetadata schemaEntry req"
      and "\<not> truthy (wire_payload decodeURIComponent req)"
  shows "handle_request transformer getMetadata decodeURIComponent schemaEntry method handler req res
           = (Responded
                (res_json
                   (JObj [(''error'', JStr (if req_method req = ''GET'' then ''No __body provided''
                                            else ''No body provided''))])
                   (res_status 400 res)),
              snd (resolve_metadata getMetadata schemaEntry req))
       \<and> (\<forall>ev \<in> set (snd (handle_request transformer getMetadata decodeURIComponent schemaEntry
                               method handler req res)). \<exists>b. ev = GetMetadataCall b)"
proof -
  have eq: "handle_request transformer getMetadata decodeURIComponent schemaEntry method handler req res
           = (Responded
                (res_json
                   (JObj [(''error'', JStr (if req_method req = ''GET'' then ''No __body provided''
                                            else ''No body provided''))])
                   (res_status 400 res)),
              snd (resolve_metadata getMetadata schemaEntry req))"
    using assms
    by (simp add: handle_request_def getInput_payload split: prod.splits)
  show ?thesis
    unfolding eq using resolve_metadata_events by auto
qed

theorem missing_payload_rejected_witness:
  "decl_truthy (ep_input (sample_endpoint (ZodType CreateUserSchema) Undefined))
   \<and> \<not> metadata_missing None (sample_endpoint (ZodType CreateUserSchema) Undefined) (get_request None)
   \<and> \<not> truthy (wire_payload (\<lambda>s. s) (get_request None))
   \<and> handle_request sample_transformer None (\<lambda>s. s)
        (sample_endpoint (ZodType CreateUserSchema) Undefined) ''get'' (HandlerFn echo)
        (get_request None) fresh_res
      = (Responded
           \<lparr>statusCode = 400, res_headers = [], headersSent = True, writableEnded = True,
            res_sent = Some (JsonBody (JObj [(''error'', JStr ''No __body provided'')]))\<rparr>, [])"
proof -
  have a: "decl_truthy (ep_input (sample_endpoint (ZodType CreateUserSchema) Undefined))"
    by (simp add: sample_endpoint_def)
  have b: "\<not> metadata_missing None (sample_endpoint (ZodType CreateUserSchema) Undefined) (get_request None)"
    by (simp add: metadata_missing_def metadata_used_def sample_endpoint_def)
  have c: "\<not> truthy (wire_payload (\<lambda>s. s) (get_request None))"
    by (simp add: wire_payload_def get_request_def)
  from missing_payload_rejected[OF a b c, of sample_transformer "''get''" "HandlerFn echo" fresh_res]
  show ?thesis using a b c
    by (simp add: resolve_metadata_def metadata_used_def sample_endpoint_def get_request_def
          res_json_def res_end_def res_status_def fresh_res_def)
qed

text \<open>
  Claim C3 as stated fails for an Endpoint declared with input undefined: a GET request
  without \<open>__body\<close> is answered 200 and the handler is called with null.
\<close>

theorem undefined_input_accepts_missing_payload:
  "handle_request sample_transformer None (\<lambda>s. s) (sample_endpoint Undefined Undefined) ''get''
     (HandlerFn echo) (get_request None) fresh_res
   = (Responded
        \<lparr>statusCode = 200, res_headers = [], headersSent = True, writableEnded = True,
         res_sent = Some (TextBody ''null'')\<rparr>,
      [HandlerCall JNull JNull, SerializeCall JNull])"
  by (simp add: handle_request_def resolve_metadata_def metadata_missing_def metadata_used_def
        sample_endpoint_def getInput_def get_request_def getInput_parse_def invoke_handler_def
        echo_def send_output_def finalize_def sample_transformer_def nullish_or_def
        res_send_def res_end_def res_status_def fresh_res_def)

lemma send_output_events:
  "ev \<in> set (snd (send_output transformer schemaEntry method rawOutput res)) \<Longrightarrow>
   (\<exists>v. ev = OutputSafeParse v) \<or> (\<exists>v. ev = SerializeCall v)"
  by (cases "ep_output schemaEntry")
     (auto simp: send_output_def split: parse_result.splits)

lemma invoke_handler_events:
  "ev \<in> set (snd (invoke_handler transformer schemaEntry method handler req res data metadata)) \<Longrightarrow>
   (\<exists>d m. ev = HandlerCall d m) \<or> (\<exists>v. ev = OutputSafeParse v) \<or> (\<exists>v. ev = SerializeCall v)"
proof (cases handler)
  case (HandlerFn f)
  obtain rawOutput res1 where f: "f data (nullish_or metadata JNull) req res = (rawOutput, res1)"
    by (cases "f data (nullish_or metadata JNull) req res")
  obtain outcome ev' where s: "send_output transformer schemaEntry method rawOutput res1 = (outcome, ev')"
    by (cases "send_output transformer schemaEntry method rawOutput res1")
  assume "ev \<in> set (snd (invoke_handler transformer schemaEntry method handler req res data metadata))"
  then have "ev = HandlerCall data (nullish_or metadata JNull) \<or> ev \<in> set ev'"
    using HandlerFn f s by (simp add: invoke_handler_def)
  then show ?thesis
    using send_output_events[of ev transformer schemaEntry "method" rawOutput res1] s by auto
qed (simp_all add: invoke_handler_def)

text \<open>For an Endpoint whose input is null no input validator is ever called.\<close>

lemma null_input_not_validated:
  assumes "ep_input schemaEntry = Null"
  shows "InputSafeParse v
           \<notin> set (snd (handle_request transformer getMetadata decodeURIComponent schemaEntry method
                          handler req res))"
proof
  let ?p = "wire_payload decodeURIComponent req"
  let ?d = "if truthy ?p then deserialize transformer ?p else JNull"
  let ?e1 = "if truthy ?p then [DeserializeCall ?p] else []"
  assume a: "InputSafeParse v
           \<in> set (snd (handle_request transformer getMetadata decodeURIComponent schemaEntry method
                          handler req res))"
  have gi: "getInput decodeURIComponent req (ep_input schemaEntry) transformer = (InputSuccess ?d, ?e1)"
    using assms by (simp add: getInput_payload getInput_parse_def)
  obtain md ev0 where m: "resolve_metadata getMetadata schemaEntry req = (md, ev0)"
    by (cases "resolve_metadata getMetadata schemaEntry req")
  obtain outcome ev2 where i: "invoke_handler transformer schemaEntry method handler req res ?d md
                                = (outcome, ev2)"
    by (cases "invoke_handler transformer schemaEntry method handler req res ?d md")
  have "snd (handle_request transformer getMetadata decodeURIComponent schemaEntry method
                          handler req res) = ev0 \<or>
        snd (handle_request transformer getMetadata decodeURIComponent schemaEntry method
                          handler req res) = ev0 @ ?e1 @ ev2"
    using m i gi by (cases "metadata_missing getMetadata schemaEntry req")
       (simp_all add: handle_request_def)
  with a have "InputSafeParse v \<in> set ev0 \<or> InputSafeParse v \<in> set ?e1 \<or> InputSafeParse v \<in> set ev2"
    by (cases "truthy ?p") auto
  moreover have "InputSafeParse v \<notin> set ev0"
    using resolve_metadata_events[of "InputSafeParse v" getMetadata schemaEntry req] m by auto
  moreover have "InputSafeParse v \<notin> set ?e1" by (cases "truthy ?p") simp_all
  moreover have "InputSafeParse v \<notin> set ev2"
    using invoke_handler_events[of "InputSafeParse v" transformer schemaEntry "method" handler
            req res ?d md] i
    by auto
  ultimately show False by blast
qed

text \<open>
  Claim C2 fails on the code beyond that: for an Endpoint whose input is null, a GET
  request that carries \<open>__body={}\<close> has its payload deserialised, and the handler
  receives the deserialised object as its first argument, not null.
\<close>

theorem null_input_payload_is_deserialized:
  "handle_request sample_transformer None (\<lambda>s. s) (sample_endpoint Null Undefined) ''get''
     (HandlerFn echo) (get_request (Some ''{}'')) fresh_res
   = (Responded
        \<lparr>statusCode = 200, res_headers = [], headersSent = True, writableEnded = True,
         res_sent = Some (TextBody ''{}'')\<rparr>,
      [DeserializeCall (JStr ''{}''), HandlerCall (JObj []) JNull, SerializeCall (JObj [])])"
  by (simp add: handle_request_def resolve_metadata_def metadata_missing_def metadata_used_def
        sample_endpoint_def getInput_def get_request_def getInput_parse_def invoke_handler_def
        echo_def send_output_def finalize_def sample_transformer_def nullish_or_def
        res_send_def res_end_def res_status_def fresh_res_def)

text \<open>
  Claim C6. For a request that has passed the metadata step and carries a payload, to an
  Endpoint whose input is a validator: when the validator rejects the deserialised
  payload with the issues \<open>issues\<close>, the server responds 400 with the list that has, for
  each issue in order, the object of its \<open>path\<close> and its \<open>message\<close>, and the handler is not
  called.
\<close>

theorem invalid_input_rejected:
  assumes "ep_input schemaEntry = ZodType safeParse"
      and "\<not> metadata_missing getMetadata schemaEntry req"
      and "truthy (wire_payload decodeURIComponent req)"
      and "safeParse (deserialize transformer (wire_payload decodeURIComponent req))
             = ParseFailure issues"
  shows "handle_request transformer getMetadata decodeURIComponent schemaEntry method handler req res
           = (Responded
                (res_json
                   (JArr (map (\<lambda>i. JObj [(''path'', JArr (issue_path i)),
                                           (''message'', JStr (issue_message i))]) issues))
                   (res_status 400 res)),
              snd (resolve_metadata getMetadata schemaEntry req)
                @ [DeserializeCall (wire_payload decodeURIComponent req),
                   InputSafeParse (deserialize transformer (wire_payload decodeURIComponent req))])
       \<and> (\<forall>d md. HandlerCall d md
              \<notin> set (snd (handle_request transformer getMetadata decodeURIComponent schemaEntry
                             method handler req res)))"
proof -
  have eq: "handle_request transformer getMetadata decodeURIComponent schemaEntry method handler req res
           = (Responded
                (res_json
                   (JArr (map (\<lambda>i. JObj [(''path'', JArr (issue_path i)),
                                           (''message'', JStr (issue_message i))]) issues))
                   (res_status 400 res)),
              snd (resolve_metadata getMetadata schemaEntry req)
                @ [DeserializeCall (wire_payload decodeURIComponent req),
                   InputSafeParse (deserialize transformer (wire_payload decodeURIComponent req))])"
    using assms
    by (simp add: handle_request_def getInput_payload getInput_parse_def issue_entry_def[abs_def]
          split: prod.splits)
  show ?thesis
    unfolding eq using resolve_metadata_events[of _ getMetadata schemaEntry req] by auto
qed

theorem invalid_input_rejected_witness:
  "ep_input (sample_endpoint (ZodType CreateUserSchema) Undefined) = ZodType CreateUserSchema
   \<and> \<not> metadata_missing None (sample_endpoint (ZodType CreateUserSchema) Undefined)
         (post_request (JStr ''{}''))
   \<and> truthy (wire_payload (\<lambda>s. s) (post_request (JStr ''{}'')))
   \<and> CreateUserSchema (deserialize sample_transformer (wire_payload (\<lambda>s. s) (post_request (JStr ''{}''))))
       = ParseFailure [\<lparr>issue_code = ''invalid_type'', issue_path = [JStr ''name''],
                        issue_message = ''Required''\<rparr>]
   \<and> handle_request sample_transformer None (\<lambda>s. s)
        (sample_endpoint (ZodType CreateUserSchema) Undefined) ''post'' (HandlerFn echo)
        (post_request (JStr ''{}'')) fresh_res
      = (Responded
           \<lparr>statusCode = 400, res_headers = [], headersSent = True, writableEnded = True,
            res_sent = Some (JsonBody (JArr [JObj [(''path'', JArr [JStr ''name'']),
                                                   (''message'', JStr ''Required'')]]))\<rparr>,
         [DeserializeCall (JStr ''{}''), InputSafeParse (JObj [])])"
proof -
  have a: "ep_input (sample_endpoint (ZodType CreateUserSchema) Undefined) = ZodType CreateUserSchema"
    by (simp add: sample_endpoint_def)
  have b: "\<not> metadata_missing None (sample_endpoint (ZodType CreateUserSchema) Undefined)
         (post_request (JStr ''{}''))"
    by (simp add: metadata_missing_def metadata_used_def sample_endpoint_def)
  have c: "truthy (wire_payload (\<lambda>s. s) (post_request (JStr ''{}'')))"
    by (simp add: wire_payload_def post_request_def)
  have d: "CreateUserSchema (deserialize sample_transformer (wire_payload (\<lambda>s. s) (post_request (JStr ''{}''))))
       = ParseFailure [\<lparr>issue_code = ''invalid_type'', issue_path = [JStr ''name''],
                        issue_message = ''Required''\<rparr>]"
    by (simp add: wire_payload_def post_request_def sample_transformer_def CreateUserSchema_def)
  from invalid_input_rejected[OF a b c d, of "''post''" "HandlerFn echo" fresh_res]
  show ?thesis using a b c d
    by (simp add: resolve_metadata_def metadata_used_def sample_endpoint_def post_request_def
          wire_payload_def sample_transformer_def
          res_json_def res_end_def res_status_def fresh_res_def)
qed

section \<open>Client: the input guard\<close>

lemma decl_truthy_not_null: "decl_truthy d \<Longrightarrow> \<not> decl_is_null d"
  by (cases d) auto

text \<open>
  Claim C4, as amended. A callable bound to an Endpoint whose input is a validator, called
  without an input value (the first argument is missing or undefined), rejects at once
  with the error "Input data argument not provided.": no collaborator is called, so no
  request is made, and the store is unchanged.
\<close>

theorem missing_input_rejected:
  assumes "decl_truthy (ep_input schemaEntry)"
      and "arg_at args 0 = JUndefined"
  shows "call_endpoint encodeURIComponent call_fetch env path method schemaEntry args h
           = (Rejected (Error ''Input data argument not provided.''), h, [])"
  using assms decl_truthy_not_null[OF assms(1)]
  by (simp add: call_endpoint_def parseArgs_def)

theorem missing_input_rejected_witness:
  "decl_truthy (ep_input (sample_endpoint (ZodType CreateUserSchema) Undefined))
   \<and> arg_at [] 0 = JUndefined
   \<and> call_endpoint (\<lambda>s. s) sample_fetch sample_env ''/users'' ''post''
        (sample_endpoint (ZodType CreateUserSchema) Undefined) [] []
      = (Rejected (Error ''Input data argument not provided.''), [], [])"
proof -
  have a: "decl_truthy (ep_input (sample_endpoint (ZodType CreateUserSchema) Undefined))"
    by (simp add: sample_endpoint_def)
  have b: "arg_at [] 0 = JUndefined" by (simp add: arg_at_def)
  from missing_input_rejected[OF a b] show ?thesis using a b by simp
qed

lemma sample_env_simps:
  "env_transformer sample_env = sample_transformer"
  "env_entrypointUrl sample_env = ''http://h/api''"
  "env_baseFetch sample_env = JFun 0"
  "env_baseInit sample_env = []"
  "env_interceptor sample_env = None"
  by (simp_all add: sample_env_def client_env_of_def nullish_or_def)

text \<open>
  Claim C4 as stated fails for an Endpoint declared with input undefined, which is not
  null: the call without input is not rejected and the fetch is called.
\<close>

theorem undefined_input_call_without_input_fetches:
  "call_endpoint (\<lambda>s. s) sample_fetch sample_env ''/user-profiles'' ''put''
     (sample_endpoint Undefined Null) [] []
   = (Resolved JNull, [],
      [FetchCall 0 ''http://h/api/user-profiles''
         [(''headers'', JObj []), (''method'', JStr ''PUT'')]])"
  by (simp add: call_endpoint_def parseArgs_def sample_endpoint_def arg_at_def build_request_def
        sample_env_simps get_prop_def nullish_or_def sample_fetch_def toUpperCase_def upper_char_def)

lemma call_endpoint_after_guard:
  assumes "\<not> decl_is_null (ep_input schemaEntry)"
      and "passes_guard schemaEntry (arg_at args 0)"
  shows "call_endpoint enc cf env path method schemaEntry args h =
     (let input = arg_at args 0; init = arg_at args 1;
          (requestInit, searchQuery) = build_request enc env method schemaEntry input init h;
          fetch = nullish_or (get_prop h init ''fetch'') (env_baseFetch env);
          h' = delete_fetch init h;
          search = (if searchQuery \<noteq> [] then ''?'' @ searchQuery else []);
          url = env_entrypointUrl env @ path @ search
      in case fetch of
           JFun f \<Rightarrow>
             (let fetchResult = cf f url requestInit;
                  ev = FetchCall f url requestInit #
                    (if \<not> truthy (get_prop h' init ''skipInterceptor'')
                     then (case env_interceptor env of
                             Some i \<Rightarrow> [InterceptorCall i method path fetchResult
                                          (get_prop h' init ''ctx'')]
                           | None \<Rightarrow> [])
                     else [])
              in if resp_ok fetchResult
                 then (Resolved
                         (if \<not> decl_is_null (ep_output schemaEntry)
                          then deserialize (env_transformer env) (JStr (resp_text fetchResult))
                          else JNull), h', ev)
                 else (Rejected
                         (new_HttpError method path (resp_status fetchResult)
                            (if resp_text fetchResult \<noteq> [] then resp_text fetchResult
                             else resp_statusText fetchResult)), h', ev))
         | _ \<Rightarrow> (Rejected TypeError, h', []))"
  using assms by (auto simp add: call_endpoint_def parseArgs_def passes_guard_def Let_def)

lemma map_of_delete_prop: "map_of (delete_prop k ps) k = None"
  by (induction ps) (auto simp: delete_prop_def)

lemma delete_fetch_ref:
  "r < length h \<Longrightarrow> delete_fetch (JRef r) h = h[r := delete_prop ''fetch'' (h ! r)]"
  by simp

text \<open>
  Claim C10, as amended. For an Endpoint whose input is not null, a call that passes the
  input guard and is given a per-call init object deletes the property \<open>fetch\<close> from that
  very object: after the call the caller's object is the one before without \<open>fetch\<close>, and
  every other object of the store is as before. For an Endpoint whose input is null the
  callable works on a fresh copy: every object the caller had in the store is unchanged.
\<close>

theorem init_fetch_deleted:
  "(\<not> decl_is_null (ep_input schemaEntry) \<and> passes_guard schemaEntry (arg_at args 0) \<and>
    arg_at args 1 = JRef r \<and> r < length h
    \<longrightarrow> fst (snd (call_endpoint enc cf env path method schemaEntry args h))
          = h[r := delete_prop ''fetch'' (h ! r)]
        \<and> get_prop (fst (snd (call_endpoint enc cf env path method schemaEntry args h)))
            (JRef r) ''fetch'' = JUndefined)
   \<and> (decl_is_null (ep_input schemaEntry)
      \<longrightarrow> take (length h) (fst (snd (call_endpoint enc cf env path method schemaEntry args h)))
          = h)"
proof (intro conjI impI)
  assume a: "\<not> decl_is_null (ep_input schemaEntry) \<and> passes_guard schemaEntry (arg_at args 0) \<and>
    arg_at args 1 = JRef r \<and> r < length h"
  then have heap: "fst (snd (call_endpoint enc cf env path method schemaEntry args h))
          = h[r := delete_prop ''fetch'' (h ! r)]"
    by (simp add: call_endpoint_after_guard Let_def split: prod.splits jsval.splits)
  show "fst (snd (call_endpoint enc cf env path method schemaEntry args h))
          = h[r := delete_prop ''fetch'' (h ! r)]" by (rule heap)
  show "get_prop (fst (snd (call_endpoint enc cf env path method schemaEntry args h)))
            (JRef r) ''fetch'' = JUndefined"
    unfolding heap using a by (simp add: get_prop_def map_of_delete_prop)
next
  assume n: "decl_is_null (ep_input schemaEntry)"
  then have "\<not> decl_truthy (ep_input schemaEntry)"
    by (cases "ep_input schemaEntry") auto
  with n show "take (length h) (fst (snd (call_endpoint enc cf env path method schemaEntry args h)))
          = h"
    by (simp add: call_endpoint_def parseArgs_def Let_def split: prod.splits jsval.splits)
qed

section \<open>Client: the shape of the request\<close>

lemma build_request_get:
  assumes "\<not> decl_is_null (ep_input schemaEntry)" and "input \<noteq> JUndefined"
  shows "snd (build_request enc env ''get'' schemaEntry input init h)
           = ''__body='' @ enc (serialize (env_transformer env) input)"
    and "map_of (fst (build_request enc env ''get'' schemaEntry input init h)) ''body''
           = map_of (assign_props (env_baseInit env) (own_props h init)) ''body''"
  using assms by (simp_all add: build_request_def Let_def map_of_set_prop)

lemma build_request_other:
  assumes "\<not> decl_is_null (ep_input schemaEntry)" and "input \<noteq> JUndefined"
      and "method \<noteq> ''get''"
  shows "snd (build_request enc env method schemaEntry input init h) = []"
    and "map_of (fst (build_request enc env method schemaEntry input init h)) ''body''
           = Some (JStr (serialize (env_transformer env) input))"
    and "\<exists>headers. map_of (fst (build_request enc env method schemaEntry input init h)) ''headers''
                     = Some (JObj headers)
                \<and> map_of headers ''Content-Type'' = Some (JStr ''application/json'')"
  using assms by (simp_all add: build_request_def Let_def map_of_set_prop)

lemma interceptor_events_no_fetch:
  "FetchCall f' url' init'
     \<notin> set (if b then (case x of Some i \<Rightarrow> [InterceptorCall i m p r c] | None \<Rightarrow> [])
            else [])"
  by (cases x; cases b; simp)

text \<open>
  Claim C5, as amended. For an Endpoint whose input is not null, a call with an input
  value that passes the input guard, with a function as the effective fetch, makes
  exactly one fetch. For the verb \<open>get\<close> its URL is the entry point, the path and
  \<open>?__body=\<close> followed by the URL-encoded serialised input, and the dispatcher does not
  write the body of the request init: it is the body that the base init and the per-call
  init supply, if any. For every other verb the URL has no query, the body of the request
  init is the serialised input, and the header \<open>Content-Type\<close> is \<open>application/json\<close>.
\<close>

theorem request_transport_shape:
  assumes "\<not> decl_is_null (ep_input schemaEntry)"
      and "arg_at args 0 \<noteq> JUndefined"
      and "passes_guard schemaEntry (arg_at args 0)"
      and "nullish_or (get_prop h (arg_at args 1) ''fetch'') (env_baseFetch env) = JFun f"
  shows "\<exists>requestInit rest.
           snd (snd (call_endpoint enc cf env path method schemaEntry args h))
             = FetchCall f
                 (env_entrypointUrl env @ path @
                  (if method = ''get''
                   then ''?__body='' @ enc (serialize (env_transformer env) (arg_at args 0))
                   else []))
                 requestInit # rest
         \<and> (\<forall>f' url' init'. FetchCall f' url' init' \<notin> set rest)
         \<and> (if method = ''get''
            then map_of requestInit ''body''
                   = map_of (assign_props (env_baseInit env) (own_props h (arg_at args 1))) ''body''
            else map_of requestInit ''body''
                   = Some (JStr (serialize (env_transformer env) (arg_at args 0)))
               \<and> (\<exists>headers. map_of requestInit ''headers'' = Some (JObj headers)
                     \<and> map_of headers ''Content-Type'' = Some (JStr ''application/json'')))"
proof -
  let ?b = "build_request enc env method schemaEntry (arg_at args 0) (arg_at args 1) h"
  obtain requestInit searchQuery where b: "?b = (requestInit, searchQuery)"
    by (cases ?b)
  then have sq: "searchQuery = snd ?b" and ri: "requestInit = fst ?b" by simp_all
  have q: "(if searchQuery \<noteq> [] then ''?'' @ searchQuery else [])
             = (if method = ''get''
                then ''?__body='' @ enc (serialize (env_transformer env) (arg_at args 0))
                else [])"
  proof (cases "method = ''get''")
    case True
    then show ?thesis unfolding sq using build_request_get(1)[OF assms(1,2)] by simp
  next
    case False
    then show ?thesis unfolding sq using build_request_other(1)[OF assms(1,2) False] by simp
  qed
  have body: "if method = ''get''
            then map_of requestInit ''body''
                   = map_of (assign_props (env_baseInit env) (own_props h (arg_at args 1))) ''body''
            else map_of requestInit ''body''
                   = Some (JStr (serialize (env_transformer env) (arg_at args 0)))
               \<and> (\<exists>headers. map_of requestInit ''headers'' = Some (JObj headers)
                     \<and> map_of headers ''Content-Type'' = Some (JStr ''application/json''))"
  proof (cases "method = ''get''")
    case True
    then show ?thesis unfolding ri using build_request_get(2)[OF assms(1,2)] by simp
  next
    case False
    then show ?thesis unfolding ri
      using build_request_other(2,3)[OF assms(1,2) False] by simp
  qed
  define rest where "rest =
     (if \<not> truthy (get_prop (delete_fetch (arg_at args 1) h) (arg_at args 1) ''skipInterceptor'')
      then (case env_interceptor env of
              Some i \<Rightarrow> [InterceptorCall i method path
                           (cf f (env_entrypointUrl env @ path @
                                  (if searchQuery \<noteq> [] then ''?'' @ searchQuery else []))
                              requestInit)
                           (get_prop (delete_fetch (arg_at args 1) h) (arg_at args 1) ''ctx'')]
            | None \<Rightarrow> [])
      else [])"
  have ev: "snd (snd (call_endpoint enc cf env path method schemaEntry args h))
             = FetchCall f
                 (env_entrypointUrl env @ path @
                  (if searchQuery \<noteq> [] then ''?'' @ searchQuery else []))
                 requestInit # rest"
    using assms(4) b
    by (simp add: call_endpoint_after_guard[OF assms(1,3)] Let_def rest_def split: option.splits)
  have nf: "\<forall>f' url' init'. FetchCall f' url' init' \<notin> set rest"
    unfolding rest_def by (intro allI interceptor_events_no_fetch)
  have "\<exists>rest. snd (snd (call_endpoint enc cf env path method schemaEntry args h))
             = FetchCall f
                 (env_entrypointUrl env @ path @
                  (if searchQuery \<noteq> [] then ''?'' @ searchQuery else []))
                 requestInit # rest
         \<and> (\<forall>f' url' init'. FetchCall f' url' init' \<notin> set rest)"
    using ev nf by blast
  then show ?thesis using q body by auto
qed

lemma sample_get_call:
  "call_endpoint (\<lambda>s. s) sample_fetch sample_env ''/users'' ''get''
     (sample_endpoint Undefined Null) [JStr ''a'', JRef 0] init_heap
   = (Rejected (new_HttpError ''get'' ''/users'' 404 ''Not Found''),
      [[(''body'', JStr ''x'')]],
      [FetchCall 1 ''http://h/api/users?__body=a''
         [(''fetch'', JFun 1), (''body'', JStr ''x''), (''headers'', JObj []),
          (''method'', JStr ''GET'')]])"
  by (simp add: call_endpoint_def parseArgs_def sample_endpoint_def arg_at_def build_request_def
        sample_env_simps get_prop_def nullish_or_def sample_fetch_def toUpperCase_def upper_char_def
        init_heap_def sample_transformer_def delete_prop_def)

lemma sample_post_call:
  "call_endpoint (\<lambda>s. s) sample_fetch sample_env ''/users'' ''post''
     (sample_endpoint Undefined Null) [JStr ''a'', JRef 0] init_heap
   = (Rejected (new_HttpError ''post'' ''/users'' 404 ''Not Found''),
      [[(''body'', JStr ''x'')]],
      [FetchCall 1 ''http://h/api/users''
         [(''fetch'', JFun 1), (''body'', JStr ''a''),
          (''headers'', JObj [(''Content-Type'', JStr ''application/json'')]),
          (''method'', JStr ''POST'')]])"
  by (simp add: call_endpoint_def parseArgs_def sample_endpoint_def arg_at_def build_request_def
        sample_env_simps get_prop_def nullish_or_def sample_fetch_def toUpperCase_def upper_char_def
        init_heap_def sample_transformer_def delete_prop_def)

text \<open>
  Claim C5 as stated fails when the per-call init carries a body: the request init of a
  GET call is the spread of the base init and the per-call init, so its body is
  populated.
\<close>

theorem get_call_with_init_body:
  "snd (snd (call_endpoint (\<lambda>s. s) sample_fetch sample_env ''/users'' ''get''
     (sample_endpoint Undefined Null) [JStr ''a'', JRef 0] init_heap))
   = [FetchCall 1 ''http://h/api/users?__body=a''
         [(''fetch'', JFun 1), (''body'', JStr ''x''), (''headers'', JObj []),
          (''method'', JStr ''GET'')]]"
  by (simp add: sample_get_call)

theorem request_transport_shape_witness:
  "\<not> decl_is_null (ep_input (sample_endpoint Undefined Null))
   \<and> arg_at [JStr ''a'', JRef 0] 0 \<noteq> JUndefined
   \<and> passes_guard (sample_endpoint Undefined Null) (arg_at [JStr ''a'', JRef 0] 0)
   \<and> nullish_or (get_prop init_heap (arg_at [JStr ''a'', JRef 0] 1) ''fetch'')
        (env_baseFetch sample_env) = JFun 1
   \<and> (\<exists>requestInit rest.
         snd (snd (call_endpoint (\<lambda>s. s) sample_fetch sample_env ''/users'' ''post''
                     (sample_endpoint Undefined Null) [JStr ''a'', JRef 0] init_heap))
           = FetchCall 1 ''http://h/api/users'' requestInit # rest
         \<and> map_of requestInit ''body'' = Some (JStr ''a''))
   \<and> arg_at [JStr ''a''] 0 \<noteq> JUndefined
   \<and> passes_guard (sample_endpoint Undefined Null) (arg_at [JStr ''a''] 0)
   \<and> nullish_or (get_prop [] (arg_at [JStr ''a''] 1) ''fetch'') (env_baseFetch sample_env)
       = JFun 0
   \<and> (\<exists>requestInit rest.
         snd (snd (call_endpoint (\<lambda>s. s) sample_fetch sample_env ''/users'' ''get''
                     (sample_endpoint Undefined Null) [JStr ''a''] []))
           = FetchCall 0 ''http://h/api/users?__body=a'' requestInit # rest
         \<and> map_of requestInit ''body'' = None)"
proof -
  have a: "\<not> decl_is_null (ep_input (sample_endpoint Undefined Null))"
    by (simp add: sample_endpoint_def)
  have b: "arg_at [JStr ''a'', JRef 0] 0 \<noteq> JUndefined"
    by (simp add: arg_at_def)
  have c: "passes_guard (sample_endpoint Undefined Null) (arg_at [JStr ''a'', JRef 0] 0)"
    by (simp add: passes_guard_def sample_endpoint_def)
  have d: "nullish_or (get_prop init_heap (arg_at [JStr ''a'', JRef 0] 1) ''fetch'')
        (env_baseFetch sample_env) = JFun 1"
    by (simp add: nullish_or_def get_prop_def arg_at_def init_heap_def)
  have b': "arg_at [JStr ''a''] 0 \<noteq> JUndefined"
    by (simp add: arg_at_def)
  have c': "passes_guard (sample_endpoint Undefined Null) (arg_at [JStr ''a''] 0)"
    by (simp add: passes_guard_def sample_endpoint_def)
  have d': "nullish_or (get_prop [] (arg_at [JStr ''a''] 1) ''fetch'') (env_baseFetch sample_env)
              = JFun 0"
    by (simp add: nullish_or_def get_prop_def arg_at_def sample_env_simps)
  have e: "env_entrypointUrl sample_env @ ''/users'' @
             (if ''post'' = ''get'' then ''?__body='' @ x else []) = ''http://h/api/users''" for x
    by (simp add: sample_env_simps)
  have e': "env_entrypointUrl sample_env @ ''/users'' @
             (if ''get'' = ''get'' then ''?__body='' @ ''a'' else [])
              = ''http://h/api/users?__body=a''"
    by (simp add: sample_env_simps)
  have f: "serialize (env_transformer sample_env) (arg_at [JStr ''a'', JRef 0] 0) = ''a''"
    by (simp add: sample_env_simps sample_transformer_def arg_at_def)
  have f': "serialize (env_transformer sample_env) (arg_at [JStr ''a''] 0) = ''a''"
    by (simp add: sample_env_simps sample_transformer_def arg_at_def)
  have g': "map_of (assign_props (env_baseInit sample_env) (own_props [] (arg_at [JStr ''a''] 1)))
              ''body'' = None"
    by (simp add: sample_env_simps arg_at_def)
  from request_transport_shape[OF a b c d, of "\<lambda>s. s" sample_fetch "''/users''" "''post''"]
  have post: "\<exists>requestInit rest.
         snd (snd (call_endpoint (\<lambda>s. s) sample_fetch sample_env ''/users'' ''post''
                     (sample_endpoint Undefined Null) [JStr ''a'', JRef 0] init_heap))
           = FetchCall 1 ''http://h/api/users'' requestInit # rest
         \<and> map_of requestInit ''body'' = Some (JStr ''a'')"
    unfolding e f by auto
  from request_transport_shape[OF a b' c' d', of "\<lambda>s. s" sample_fetch "''/users''" "''get''"]
  have get: "\<exists>requestInit rest.
         snd (snd (call_endpoint (\<lambda>s. s) sample_fetch sample_env ''/users'' ''get''
                     (sample_endpoint Undefined Null) [JStr ''a''] []))
           = FetchCall 0 ''http://h/api/users?__body=a'' requestInit # rest
         \<and> map_of requestInit ''body'' = None"
    unfolding f' g' e' by auto
  show ?thesis using a b c d b' c' d' post get by simp
qed

text \<open>
  Claim C7. When a client call has made its fetch and the response has a status outside
  200 to 299, the call rejects with an \<open>HttpError\<close> whose fields are the verb, the derived
  path, the status, and as description the body text of the response when it is not
  empty and its status text otherwise; its message is "Fetch at VERB path failed, status
  N, description: 'D'", built from these four fields.
\<close>

theorem non_ok_response_rejects:
  assumes "call_endpoint enc cf env path method schemaEntry args h = (outcome, h', events)"
      and "FetchCall f url requestInit \<in> set events"
      and "wf_response (cf f url requestInit)"
      and "\<not> (200 \<le> resp_status (cf f url requestInit) \<and> resp_status (cf f url requestInit) \<le> 299)"
  shows "outcome =
           Rejected
             (HttpError
                (''Fetch at '' @ toUpperCase method @ '' '' @ path @ '' failed, status ''
                   @ show_nat (resp_status (cf f url requestInit)) @ '', description: ''
                   @ [CHR 0x27]
                   @ (if resp_text (cf f url requestInit) \<noteq> []
                      then resp_text (cf f url requestInit)
                      else resp_statusText (cf f url requestInit))
                   @ [CHR 0x27])
                method path (resp_status (cf f url requestInit))
                (if resp_text (cf f url requestInit) \<noteq> []
                 then resp_text (cf f url requestInit)
                 else resp_statusText (cf f url requestInit)))"
proof -
  have nok: "\<not> resp_ok (cf f url requestInit)"
    using assms(3,4) by (simp add: wf_response_def)
  obtain input init h1 where p: "parseArgs schemaEntry args h = (input, init, h1)"
    by (cases "parseArgs schemaEntry args h") auto
  obtain ri sq where b: "build_request enc env method schemaEntry input init h1 = (ri, sq)"
    by (cases "build_request enc env method schemaEntry input init h1")
  show ?thesis
  proof (cases "decl_truthy (ep_input schemaEntry) \<and> \<not> truthy input")
    case True
    with assms(1,2) p show ?thesis by (auto simp: call_endpoint_def)
  next
    case False
    have "\<exists>g. nullish_or (get_prop h1 init ''fetch'') (env_baseFetch env) = JFun g"
    proof (rule ccontr)
      assume "\<nexists>g. nullish_or (get_prop h1 init ''fetch'') (env_baseFetch env) = JFun g"
      then have "events = []"
        using assms(1) p b False
        by (auto simp: call_endpoint_def Let_def split: jsval.splits)
      with assms(2) show False by simp
    qed
    then obtain g where JFun: "nullish_or (get_prop h1 init ''fetch'') (env_baseFetch env) = JFun g"
      by blast
    show ?thesis
    proof -
      let ?url = "env_entrypointUrl env @ path @ (if sq \<noteq> [] then ''?'' @ sq else [])"
      let ?rest = "(if \<not> truthy (get_prop (delete_fetch init h1) init ''skipInterceptor'')
                           then (case env_interceptor env of
                                   Some i \<Rightarrow> [InterceptorCall i method path (cf g ?url ri)
                                                (get_prop (delete_fetch init h1) init ''ctx'')]
                                 | None \<Rightarrow> [])
                           else [])"
      have ev: "events = FetchCall g ?url ri # ?rest"
        using assms(1) p b False JFun
        by (auto simp: call_endpoint_def Let_def split: if_splits)
      have nr: "FetchCall f url requestInit \<notin> set ?rest"
        by (rule interceptor_events_no_fetch)
      have "FetchCall f url requestInit \<in> set (FetchCall g ?url ri # ?rest)"
        using assms(2) unfolding ev .
      then have "FetchCall f url requestInit = FetchCall g ?url ri \<or>
                 FetchCall f url requestInit \<in> set ?rest"
        by (rule set_ConsD[THEN disjE]) blast+
      with nr have "FetchCall f url requestInit = FetchCall g ?url ri" by blast
      then have eq: "g = f" "?url = url" "ri = requestInit" by simp_all
      have "fst (call_endpoint enc cf env path method schemaEntry args h)
              = Rejected (new_HttpError method path (resp_status (cf f url requestInit))
                  (if resp_text (cf f url requestInit) \<noteq> []
                   then resp_text (cf f url requestInit)
                   else resp_statusText (cf f url requestInit)))"
        using p b False JFun nok eq
        by (auto simp: call_endpoint_def Let_def)
      then show ?thesis
        unfolding assms(1) by (simp add: new_HttpError_def)
    qed
  qed
qed

lemma sample_fetch_1: "f \<noteq> 0 \<Longrightarrow> sample_fetch f url init =
  \<lparr>resp_ok = False, resp_status = 404, resp_statusText = ''Not Found'', resp_text = []\<rparr>"
  by (simp add: sample_fetch_def)

theorem non_ok_response_rejects_witness:
  "call_endpoint (\<lambda>s. s) sample_fetch sample_env ''/users'' ''post''
     (sample_endpoint Undefined Null) [JStr ''a'', JRef 0] init_heap
   = (Rejected
        (HttpError
           (''Fetch at POST /users failed, status 404, description: '' @ [CHR 0x27]
              @ ''Not Found'' @ [CHR 0x27])
           ''post'' ''/users'' 404 ''Not Found''),
      [[(''body'', JStr ''x'')]],
      [FetchCall 1 ''http://h/api/users''
         [(''fetch'', JFun 1), (''body'', JStr ''a''),
          (''headers'', JObj [(''Content-Type'', JStr ''application/json'')]),
          (''method'', JStr ''POST'')]])
   \<and> wf_response (sample_fetch 1 ''http://h/api/users''
         [(''fetch'', JFun 1), (''body'', JStr ''a''),
          (''headers'', JObj [(''Content-Type'', JStr ''application/json'')]),
          (''method'', JStr ''POST'')])
   \<and> \<not> (200 \<le> resp_status (sample_fetch 1 ''http://h/api/users''
         [(''fetch'', JFun 1), (''body'', JStr ''a''),
          (''headers'', JObj [(''Content-Type'', JStr ''application/json'')]),
          (''method'', JStr ''POST'')]) \<and>
        resp_status (sample_fetch 1 ''http://h/api/users''
         [(''fetch'', JFun 1), (''body'', JStr ''a''),
          (''headers'', JObj [(''Content-Type'', JStr ''application/json'')]),
          (''method'', JStr ''POST'')]) \<le> 299)"
proof -
  let ?init = "[(''fetch'', JFun 1), (''body'', JStr ''a''),
          (''headers'', JObj [(''Content-Type'', JStr ''application/json'')]),
          (''method'', JStr ''POST'')]"
  have m: "FetchCall 1 ''http://h/api/users'' ?init \<in> set [FetchCall 1 ''http://h/api/users'' ?init]"
    by simp
  have w: "wf_response (sample_fetch 1 ''http://h/api/users'' ?init)"
    by (simp add: wf_response_def sample_fetch_1)
  have n: "\<not> (200 \<le> resp_status (sample_fetch 1 ''http://h/api/users'' ?init) \<and>
        resp_status (sample_fetch 1 ''http://h/api/users'' ?init) \<le> 299)"
    by (simp add: sample_fetch_1)
  have s: "show_nat 404 = ''404''" by (simp add: show_nat.simps digit_char_def)
  have u: "toUpperCase ''post'' = ''POST''" by (simp add: toUpperCase_def upper_char_def)
  from non_ok_response_rejects[OF sample_post_call m w n]
  have "Rejected (new_HttpError ''post'' ''/users'' 404 ''Not Found'')
        = Rejected
        (HttpError
           (''Fetch at POST /users failed, status 404, description: '' @ [CHR 0x27]
              @ ''Not Found'' @ [CHR 0x27])
           ''post'' ''/users'' 404 ''Not Found'')"
    by (simp add: sample_fetch_1 s u)
  then show ?thesis using sample_post_call w n by simp
qed

theorem init_fetch_deleted_witness:
  "\<not> decl_is_null (ep_input (sample_endpoint Undefined Null))
   \<and> passes_guard (sample_endpoint Undefined Null) (arg_at [JStr ''a'', JRef 0] 0)
   \<and> arg_at [JStr ''a'', JRef 0] 1 = JRef 0
   \<and> 0 < length init_heap
   \<and> fst (snd (call_endpoint (\<lambda>s. s) sample_fetch sample_env ''/users'' ''post''
                  (sample_endpoint Undefined Null) [JStr ''a'', JRef 0] init_heap))
       = [[(''body'', JStr ''x'')]]
   \<and> decl_is_null (ep_input (sample_endpoint Null Undefined))
   \<and> take (length init_heap)
        (fst (snd (call_endpoint (\<lambda>s. s) sample_fetch sample_env ''/users'' ''get''
                     (sample_endpoint Null Undefined) [JRef 0] init_heap)))
       = [[(''fetch'', JFun 1), (''body'', JStr ''x'')]]"
proof -
  have a: "\<not> decl_is_null (ep_input (sample_endpoint Undefined Null))"
    by (simp add: sample_endpoint_def)
  have b: "passes_guard (sample_endpoint Undefined Null) (arg_at [JStr ''a'', JRef 0] 0)"
    by (simp add: passes_guard_def sample_endpoint_def)
  have c: "arg_at [JStr ''a'', JRef 0] 1 = JRef 0" by (simp add: arg_at_def)
  have d: "0 < length init_heap" by (simp add: init_heap_def)
  have e: "decl_is_null (ep_input (sample_endpoint Null Undefined))"
    by (simp add: sample_endpoint_def)
  have f: "init_heap[0 := delete_prop ''fetch'' (init_heap ! 0)] = [[(''body'', JStr ''x'')]]"
    by (simp add: init_heap_def delete_prop_def)
  note t = init_fetch_deleted[of "sample_endpoint Undefined Null" "[JStr ''a'', JRef 0]" 0 init_heap
             "\<lambda>s. s" sample_fetch sample_env "''/users''" "''post''"]
  note t' = init_fetch_deleted[of "sample_endpoint Null Undefined" "[JRef 0]" 0 init_heap
             "\<lambda>s. s" sample_fetch sample_env "''/users''" "''get''"]
  from t a b c d have "fst (snd (call_endpoint (\<lambda>s. s) sample_fetch sample_env ''/users'' ''post''
                  (sample_endpoint Undefined Null) [JStr ''a'', JRef 0] init_heap))
       = init_heap[0 := delete_prop ''fetch'' (init_heap ! 0)]"
    by blast
  moreover from t' e have "take (length init_heap)
        (fst (snd (call_endpoint (\<lambda>s. s) sample_fetch sample_env ''/users'' ''get''
                     (sample_endpoint Null Undefined) [JRef 0] init_heap)))
       = init_heap"
    by blast
  ultimately show ?thesis using a b c d e f by (simp add: init_heap_def)
qed

text \<open>
  Claim C10 as stated fails for a call that the input guard rejects: the callable throws
  before the deletion, and the caller's init object keeps its \<open>fetch\<close>.
\<close>

theorem rejected_call_keeps_init_fetch:
  "call_endpoint (\<lambda>s. s) sample_fetch sample_env ''/users'' ''post''
     (sample_endpoint (ZodType CreateUserSchema) Undefined) [JUndefined, JRef 0] init_heap
   = (Rejected (Error ''Input data argument not provided.''),
      [[(''fetch'', JFun 1), (''body'', JStr ''x'')]], [])"
  by (simp add: call_endpoint_def parseArgs_def sample_endpoint_def arg_at_def init_heap_def)

end
